theory Spec2Isabelle
  imports Complex_Main
begin

section \<open>Data model (types.ts, hooks.ts)\<close>

text \<open>
  JavaScript numbers are modelled as reals: the roster is parsed from JSON, whose numbers
  are finite, and rounding is left out. Where an operation of the source yields
  \<open>NaN\<close> or an infinity on a real input, the branch the source takes there is written out.
  An optional telemetry field is a number, or \<open>None\<close> when it is \<open>undefined\<close> or
  \<open>null\<close>. The field \<open>lastSeen\<close> holds the time value of
  \<open>new Date(node.lastSeen)\<close> in milliseconds, \<open>None\<close> when the date is invalid
  (\<open>getTime()\<close> is \<open>NaN\<close>). \<open>Date.now()\<close> is the explicit argument \<open>now\<close>.
\<close>

datatype PNodeStatus = Online | Unknown | Offline

record PNode =
  pnodeId :: string
  latitude :: real
  longitude :: real
  status :: PNodeStatus
  storageUsed :: real
  version :: string
  lastSeen :: "real option"
  peers_seen :: "real option"
  peersSeen :: "real option"
  peer_diversity :: "real option"
  peerDiversity :: "real option"
  response_latency :: "real option"
  responseLatency :: "real option"
  uptime :: "real option"
  uptime_ratio :: "real option"
  uptimeRatio :: "real option"
  data_availability :: "real option"
  dataAvailability :: "real option"
  dataAvailabilityRatio :: "real option"
  version_freshness :: "real option"

record PNodeSnapshot =
  timestamp :: real
  nodes :: "PNode list"
  synthetic :: "bool option"

section \<open>JavaScript operators used by the source\<close>

text \<open>\<open>a ?? b\<close>: the left operand unless it is \<open>undefined\<close> or \<open>null\<close>.\<close>

fun nullish :: "'a option \<Rightarrow> 'a option \<Rightarrow> 'a option" where
  "nullish (Some a) b = Some a"
| "nullish None b = b"

text \<open>\<open>a ?? d\<close> with a default that is always there.\<close>

fun nullishOr :: "'a option \<Rightarrow> 'a \<Rightarrow> 'a" where
  "nullishOr (Some a) d = a"
| "nullishOr None d = d"

text \<open>\<open>x || d\<close> on a number: \<open>0\<close> is falsy.\<close>

definition falsyOr :: "real \<Rightarrow> real \<Rightarrow> real" where
  "falsyOr x d = (if x = 0 then d else x)"

section \<open>Health and reputation (health.ts)\<close>

datatype HealthTier = Good | Warning | Bad

record HealthDetails =
  score :: real
  tier :: HealthTier
  reasons :: "string list"

datatype ReputationTier = Gold | Silver | Risky

text \<open>The fields of \<open>ReputationDetails\<close> are \<open>score\<close> and \<open>tier\<close> in the source.\<close>

record ReputationDetails =
  rep_score :: real
  rep_tier :: ReputationTier

text \<open>\<open>clamp01\<close> on a number that is not \<open>NaN\<close>.\<close>

definition clamp01 :: "real \<Rightarrow> real" where
  "clamp01 x = max 0 (min 1 x)"

text \<open>
  \<open>clamp01(Math.log10(1 + peersSeen) / 2)\<close>: the logarithm is \<open>NaN\<close> below zero and
  \<open>-Infinity\<close> at zero, and \<open>clamp01\<close> sends both to \<open>0\<close>.
\<close>

definition peersScoreOf :: "real \<Rightarrow> real" where
  "peersScoreOf p = (if 1 + p \<le> 0 then 0 else clamp01 (log 10 (1 + p) / 2))"

text \<open>The latency sub-score shared by both scorers: \<open>0.7\<close> when the field is absent.\<close>

definition latencyScoreOf :: "real option \<Rightarrow> real" where
  "latencyScoreOf r = (case r of None \<Rightarrow> 0.7 | Some ms \<Rightarrow> clamp01 (1 - (ms - 50) / 450))"

text \<open>The diversity sub-score: \<open>clamp01(peerDiversity || 0.5)\<close>.\<close>

definition diversityScoreOf :: "PNode \<Rightarrow> real" where
  "diversityScoreOf node =
    clamp01 (falsyOr (nullishOr (nullish (peer_diversity node) (peerDiversity node)) 0) 0.5)"

text \<open>The freshness sub-score: \<open>0.5\<close> unless the last-seen time is a number.\<close>

definition freshnessScoreOf :: "real \<Rightarrow> PNode \<Rightarrow> real" where
  "freshnessScoreOf now node =
    (case lastSeen node of None \<Rightarrow> 0.5
     | Some lastSeenMs \<Rightarrow> clamp01 (1 - ((now - lastSeenMs) / 1000) / (10 * 60)))"

definition computeNodeHealth :: "real \<Rightarrow> PNode \<Rightarrow> HealthDetails" where
  "computeNodeHealth now node =
    (let peersSeen' = nullishOr (nullish (peers_seen node) (peersSeen node)) 0;
         responseLatency' = nullish (response_latency node) (responseLatency node);
         uptime' = nullish (nullish (uptime node) (uptime_ratio node)) (uptimeRatio node);
         dataAvailability' =
           nullish (nullish (data_availability node) (dataAvailability node))
             (dataAvailabilityRatio node);
         peersScore = peersScoreOf peersSeen';
         r1 = (if peersSeen' < 3 then [''Low peer count in gossip''] else []);
         diversityScore = diversityScoreOf node;
         r2 = (if diversityScore < 0.4 then [''Peers lack geographic / ASN diversity''] else []);
         latencyScore = latencyScoreOf responseLatency';
         r3 = (case responseLatency' of None \<Rightarrow> []
               | Some ms \<Rightarrow> if ms > 350 then [''High gossip response latency''] else []);
         uptimeScore = clamp01 (nullishOr uptime' 0.8);
         r4 = (if uptimeScore < 0.8 then [''Uptime below target SLA''] else []);
         dataScore = clamp01 (nullishOr dataAvailability' 0.9);
         r5 = (if dataScore < 0.8 then [''Data availability below network baseline''] else []);
         freshnessScore = freshnessScoreOf now node;
         r6 = (case lastSeen node of None \<Rightarrow> []
               | Some lastSeenMs \<Rightarrow>
                   if (now - lastSeenMs) / 1000 > 10 * 60
                   then [''Not seen in recent gossip window''] else []);
         statusBase =
           (if status node = Online then 0.9 else if status node = Unknown then 0.6 else 0.2);
         score' = clamp01 (statusBase * 0.25 + peersScore * 0.15 + diversityScore * 0.15
                    + latencyScore * 0.15 + uptimeScore * 0.15 + dataScore * 0.1
                    + freshnessScore * 0.05);
         tier' = (if score' < 0.4 then Bad else if score' < 0.7 then Warning else Good);
         rs = r1 @ r2 @ r3 @ r4 @ r5 @ r6
     in \<lparr> score = score', tier = tier',
          reasons = (if rs = [] \<and> tier' = Good
                     then [''Healthy gossip connectivity and recent activity''] else rs) \<rparr>)"

definition computeReputation :: "PNode \<Rightarrow> HealthDetails \<Rightarrow> ReputationDetails" where
  "computeReputation node health =
    (let uptime' = nullish (nullish (uptime node) (uptime_ratio node)) (uptimeRatio node);
         dataAvailability' =
           nullish (nullish (data_availability node) (dataAvailability node))
             (dataAvailabilityRatio node);
         responseLatency' = nullish (response_latency node) (responseLatency node);
         versionFreshness = nullishOr (version_freshness node) 0.7;
         uptimeScore = clamp01 (nullishOr uptime' 0.8);
         storageScore = clamp01 (nullishOr dataAvailability' 0.9);
         latencyScore = latencyScoreOf responseLatency';
         freshnessScore = clamp01 versionFreshness;
         raw = clamp01 (uptimeScore * 0.35 + storageScore * 0.35 + latencyScore * 0.12
                 + freshnessScore * 0.12 + score health * 0.06)
     in \<lparr> rep_score = raw,
          rep_tier = (if raw \<ge> 0.8 then Gold else if raw < 0.5 then Risky else Silver) \<rparr>)"

section \<open>JavaScript containers\<close>

text \<open>
  A \<open>Map\<close> keeps its entries in insertion order; \<open>set\<close> on a key that is present
  replaces the value where it stands. It is modelled as an association list.
\<close>

type_synonym ('k, 'v) jsmap = "('k \<times> 'v) list"

fun mapSet :: "('k, 'v) jsmap \<Rightarrow> 'k \<Rightarrow> 'v \<Rightarrow> ('k, 'v) jsmap" where
  "mapSet [] k v = [(k, v)]"
| "mapSet ((k', v') # m) k v = (if k' = k then (k, v) # m else (k', v') # mapSet m k v)"

definition mapGet :: "('k, 'v) jsmap \<Rightarrow> 'k \<Rightarrow> 'v option" where
  "mapGet m k = map_of m k"

text \<open>\<open>new Map(entries)\<close>: the entries are set one after the other.\<close>

definition newMap :: "('k \<times> 'v) list \<Rightarrow> ('k, 'v) jsmap" where
  "newMap entries = fold (\<lambda>e m. mapSet m (fst e) (snd e)) entries []"

text \<open>\<open>xs[i]\<close>: \<open>undefined\<close> outside the array.\<close>

definition jsIndex :: "'a list \<Rightarrow> int \<Rightarrow> 'a option" where
  "jsIndex xs i = (if 0 \<le> i \<and> i < int (length xs) then Some (xs ! nat i) else None)"

text \<open>\<open>xs.join(sep)\<close> on an array of strings.\<close>

fun joinStrings :: "string \<Rightarrow> string list \<Rightarrow> string" where
  "joinStrings sep [] = []"
| "joinStrings sep [x] = x"
| "joinStrings sep (x # y # ys) = x @ sep @ joinStrings sep (y # ys)"

section \<open>Region keys (partitions.ts)\<close>

text \<open>\<open>Math.round\<close>: the nearest integer, a tie going up.\<close>

definition mathRound :: "real \<Rightarrow> int" where
  "mathRound x = \<lfloor>x + 1 / 2\<rfloor>"

definition digitChar :: "nat \<Rightarrow> char" where
  "digitChar d = ''0123456789'' ! d"

fun digitsOf :: "nat \<Rightarrow> string" where
  "digitsOf n = (if n < 10 then [digitChar n] else digitsOf (n div 10) @ [digitChar (n mod 10)])"

declare digitsOf.simps [simp del]

text \<open>
  The text of an integral number in a template string, in plain decimal digits
  (JavaScript switches to exponent notation from \<open>1e21\<close> on; \<open>-0\<close> prints as \<open>0\<close>).
\<close>

definition numberToString :: "int \<Rightarrow> string" where
  "numberToString i = (if i < 0 then CHR ''-'' # digitsOf (nat (- i)) else digitsOf (nat i))"

definition getRegionKey :: "PNode \<Rightarrow> string" where
  "getRegionKey node =
    (let latBucket = mathRound (latitude node / 10) * 10;
         lonBucket = mathRound (longitude node / 10) * 10
     in numberToString latBucket @ '':'' @ numberToString lonBucket)"

section \<open>Failure and partition detection (partitions.ts)\<close>

datatype NodeAnomaly = sudden_drop | isolated | black_hole

record FailureAnalysis =
  anomaliesById :: "(string, NodeAnomaly list) jsmap"
  partitionSuspected :: bool
  partitionReason :: "string option"

record RegionTotals =
  total :: nat
  offline :: nat

text \<open>The value of \<open>ageMs\<close>: a number of milliseconds or \<open>Infinity\<close>.\<close>

datatype Age = Finite real | Infinity

definition ageMs :: "real \<Rightarrow> PNode \<Rightarrow> Age" where
  "ageMs now n = (case lastSeen n of None \<Rightarrow> Infinity | Some ts \<Rightarrow> Finite (now - ts))"

fun ageGreater :: "Age \<Rightarrow> real \<Rightarrow> bool" where
  "ageGreater Infinity c = True"
| "ageGreater (Finite a) c = (a > c)"

definition TEN_MIN :: real where
  "TEN_MIN = 10 * 60 * 1000"

text \<open>\<open>anomaliesById.get(id) ?? []\<close>\<close>

definition listOf :: "(string, NodeAnomaly list) jsmap \<Rightarrow> string \<Rightarrow> NodeAnomaly list" where
  "listOf m k = nullishOr (mapGet m k) []"

text \<open>The body of the loop over the previous snapshot's nodes (sudden drops).\<close>

definition suddenDropStep ::
  "(string, PNode) jsmap \<Rightarrow> PNode \<Rightarrow> (string, NodeAnomaly list) jsmap
    \<Rightarrow> (string, NodeAnomaly list) jsmap" where
  "suddenDropStep currentById prev m =
    (let now = mapGet currentById (pnodeId prev);
         wasOnline = (status prev = Online);
         isNowMissing = (now = None);
         isNowOffline = (case now of None \<Rightarrow> False | Some n \<Rightarrow> status n = Offline)
     in if wasOnline \<and> (isNowMissing \<or> isNowOffline)
        then mapSet m (pnodeId prev) (listOf m (pnodeId prev) @ [sudden_drop])
        else m)"

text \<open>The body of the loop that counts the current roster by region.\<close>

definition regionStep ::
  "PNode \<Rightarrow> (string, RegionTotals) jsmap \<Rightarrow> (string, RegionTotals) jsmap" where
  "regionStep n m =
    (let key = getRegionKey n;
         stats = nullishOr (mapGet m key) \<lparr> total = 0, offline = 0 \<rparr>;
         stats1 = stats \<lparr> total := total stats + 1 \<rparr>;
         stats2 = (if status n = Offline then stats1 \<lparr> offline := offline stats1 + 1 \<rparr>
                   else stats1)
     in mapSet m key stats2)"

definition regionTotalsOf :: "PNode list \<Rightarrow> (string, RegionTotals) jsmap" where
  "regionTotalsOf currentNodes = fold regionStep currentNodes []"

definition isolatedRegionsOf :: "PNode list \<Rightarrow> string list" where
  "isolatedRegionsOf currentNodes =
    map fst (filter (\<lambda>e. total (snd e) \<ge> 5
                        \<and> real (offline (snd e)) / real (total (snd e)) \<ge> 0.6)
               (regionTotalsOf currentNodes))"

text \<open>The body of the loop that marks the nodes of isolated regions.\<close>

definition isolatedStep ::
  "string list \<Rightarrow> PNode \<Rightarrow> (string, NodeAnomaly list) jsmap
    \<Rightarrow> (string, NodeAnomaly list) jsmap" where
  "isolatedStep isolatedRegions n m =
    (if getRegionKey n \<notin> set isolatedRegions then m
     else let list = listOf m (pnodeId n)
          in if isolated \<notin> set list then mapSet m (pnodeId n) (list @ [isolated]) else m)"

text \<open>The body of the loop that marks gossip black holes.\<close>

definition blackHoleStep ::
  "real \<Rightarrow> PNode \<Rightarrow> (string, NodeAnomaly list) jsmap \<Rightarrow> (string, NodeAnomaly list) jsmap" where
  "blackHoleStep now n m =
    (let peersSeen' = nullishOr (nullish (peers_seen n) (peersSeen n)) 0;
         dataAvailability' =
           nullishOr (nullish (nullish (data_availability n) (dataAvailability n))
             (dataAvailabilityRatio n)) 1;
         tooOld = ageGreater (ageMs now n) TEN_MIN;
         tooFewPeers = (peersSeen' < 2);
         poorAvailability = (dataAvailability' < 0.5)
     in if tooOld \<or> tooFewPeers \<or> poorAvailability
        then let list = listOf m (pnodeId n)
             in if black_hole \<notin> set list then mapSet m (pnodeId n) (list @ [black_hole]) else m
        else m)"

text \<open>The anomaly map after the three loops, for a roster that is not empty.\<close>

definition anomaliesOf ::
  "real \<Rightarrow> PNodeSnapshot list \<Rightarrow> PNode list \<Rightarrow> (string, NodeAnomaly list) jsmap" where
  "anomaliesOf now snapshots currentNodes =
    (let latestSnap = jsIndex snapshots (int (length snapshots) - 1);
         prevSnap = jsIndex snapshots (int (length snapshots) - 2);
         currentById = newMap (map (\<lambda>n. (pnodeId n, n)) currentNodes);
         a1 = (case prevSnap of None \<Rightarrow> []
               | Some p \<Rightarrow> (case latestSnap of None \<Rightarrow> []
                   | Some l \<Rightarrow> fold (suddenDropStep currentById) (nodes p) []));
         isolatedRegions = isolatedRegionsOf currentNodes;
         a2 = (if isolatedRegions \<noteq> [] then fold (isolatedStep isolatedRegions) currentNodes a1
               else a1)
     in fold (blackHoleStep now) currentNodes a2)"

text \<open>The verdict of the \<open>if\<close> chain, before the probable-cause block.\<close>

definition partitionVerdict ::
  "string list \<Rightarrow> nat \<Rightarrow> nat \<Rightarrow> nat \<Rightarrow> nat \<Rightarrow> bool \<times> string option" where
  "partitionVerdict isolatedRegions manySuddenDrops total' offlineCount onlineCount =
    (if isolatedRegions \<noteq> []
     then (True, Some (''Region outage or isolation in '' @ joinStrings '', '' isolatedRegions))
     else if manySuddenDrops > 0 \<and> real manySuddenDrops / real total' > 0.2
     then (True, Some ''Large set of peers dropped from gossip abruptly'')
     else if offlineCount > onlineCount
     then (True, Some ''Majority of pNodes appear offline or unreachable'')
     else (False, None))"

text \<open>\<open>!partitionReason\<close>: \<open>null\<close> and the empty string are falsy.\<close>

definition reasonMissing :: "string option \<Rightarrow> bool" where
  "reasonMissing r = (case r of None \<Rightarrow> True | Some s \<Rightarrow> s = [])"

text \<open>The probable-cause block: the reason it attaches when it runs.\<close>

definition probableCause :: "PNode list \<Rightarrow> string" where
  "probableCause currentNodes =
    (let versions =
           fold (\<lambda>n m. let v = (if version n = [] then ''unknown'' else version n)
                        in mapSet m v (nullishOr (mapGet m v) (0::nat) + 1))
             currentNodes [];
         sorted' = sort_key (\<lambda>e. - int (snd e)) versions
     in case sorted' of
          [] \<Rightarrow> ''Latency spike or upstream network instability suspected''
        | dominant # rest \<Rightarrow>
            if fst dominant \<noteq> ''unknown''
               \<and> real (snd dominant) / real (length currentNodes) > 0.5
            then ''Version skew risk: most nodes report version '' @ fst dominant
            else ''Latency spike or upstream network instability suspected'')"

definition analyzeFailures ::
  "real \<Rightarrow> PNodeSnapshot list \<Rightarrow> PNode list \<Rightarrow> FailureAnalysis" where
  "analyzeFailures now snapshots currentNodes =
    (if currentNodes = []
     then \<lparr> anomaliesById = [], partitionSuspected = False, partitionReason = None \<rparr>
     else
       let anomalies = anomaliesOf now snapshots currentNodes;
           isolatedRegions = isolatedRegionsOf currentNodes;
           offlineCount = length (filter (\<lambda>n. status n = Offline) currentNodes);
           onlineCount = length (filter (\<lambda>n. status n = Online) currentNodes);
           total' = length currentNodes;
           manySuddenDrops =
             length (filter (\<lambda>arr. sudden_drop \<in> set arr) (map snd anomalies));
           verdict =
             partitionVerdict isolatedRegions manySuddenDrops total' offlineCount onlineCount;
           reason = (if fst verdict \<and> reasonMissing (snd verdict)
                     then Some (probableCause currentNodes) else snd verdict)
       in \<lparr> anomaliesById = anomalies, partitionSuspected = fst verdict,
            partitionReason = reason \<rparr>)"

section \<open>Snapshot history (hooks.ts)\<close>

text \<open>\<open>xs.slice(-k)\<close>: the last \<open>k\<close> elements, all of them when there are fewer.\<close>

definition sliceLast :: "nat \<Rightarrow> 'a list \<Rightarrow> 'a list" where
  "sliceLast k xs = drop (length xs - k) xs"

text \<open>The updater passed to \<open>setSnapshots\<close> after a fetch at time \<open>now\<close>.\<close>

definition appendSnapshot :: "real \<Rightarrow> PNode list \<Rightarrow> PNodeSnapshot list \<Rightarrow> PNodeSnapshot list" where
  "appendSnapshot now data prev =
    (let next = prev @ [\<lparr> timestamp = now, nodes = data, synthetic = None \<rparr>]
     in sliceLast 500 next)"

text \<open>The history after a sequence of fetches, each with its time and roster.\<close>

definition historyAfter :: "(real \<times> PNode list) list \<Rightarrow> PNodeSnapshot list \<Rightarrow> PNodeSnapshot list" where
  "historyAfter fetches start = fold (\<lambda>f prev. appendSnapshot (fst f) (snd f) prev) fetches start"

section \<open>Time travel (App.tsx)\<close>

datatype TimeMode = Live | Mode1h | Mode24h | Mode7d

datatype error = RangeError

record TimeView =
  displayNodes :: "PNode list"
  displayHealthById :: "(string, HealthDetails) jsmap"
  isSyntheticHistory :: bool
  availableSnapshots :: "PNodeSnapshot list"

definition windowSecOf :: "TimeMode \<Rightarrow> real" where
  "windowSecOf timeMode =
    (if timeMode = Mode1h then 3600 else if timeMode = Mode24h then 86400 else 7 * 86400)"

text \<open>
  \<open>new Date(t)\<close> for a number: an invalid date beyond 8.64e15 milliseconds, else the
  time value cut to an integer.
\<close>

definition timeClip :: "real \<Rightarrow> real option" where
  "timeClip t =
    (if \<bar>t\<bar> > 8640000000000000 then None
     else Some (if t \<ge> 0 then of_int \<lfloor>t\<rfloor> else of_int \<lceil>t\<rceil>))"

definition jitterOf :: "nat \<Rightarrow> nat \<Rightarrow> real" where
  "jitterOf idx i = real ((idx * 7919 + i * 104729) mod 1000) / 1000"

text \<open>
  The callback of \<open>nodes.map\<close> for step \<open>i\<close> and node index \<open>idx\<close>;
  \<open>toISOString\<close> throws a \<open>RangeError\<close> on an invalid date.
\<close>

definition mutateNode :: "real \<Rightarrow> real \<Rightarrow> nat \<Rightarrow> nat \<Rightarrow> PNode \<Rightarrow> error + PNode" where
  "mutateNode now windowSec i idx n =
    (let jitter = jitterOf idx i;
         status' = (if status n = Online \<and> jitter > 0.9 then Unknown
                    else if status n = Unknown \<and> jitter > 0.8 then Offline
                    else status n);
         offsetSec = (jitter - 0.5) * windowSec * 0.4;
         baseLastSeen = (case lastSeen n of None \<Rightarrow> now
                         | Some t \<Rightarrow> if t = 0 then now else t)
     in case timeClip (baseLastSeen - offsetSec * 1000) of
          None \<Rightarrow> Inl RangeError
        | Some t \<Rightarrow> Inr (n \<lparr> status := status', lastSeen := Some t \<rparr>))"

text \<open>A list of results: the first error, or all the values.\<close>

fun collect :: "('e + 'a) list \<Rightarrow> 'e + 'a list" where
  "collect [] = Inr []"
| "collect (Inl e # rs) = Inl e"
| "collect (Inr a # rs) = (case collect rs of Inl e \<Rightarrow> Inl e | Inr as \<Rightarrow> Inr (a # as))"

definition steps :: nat where
  "steps = 12"

text \<open>The callback of \<open>Array.from({ length: steps }, ...)\<close> for step \<open>i\<close>.\<close>

definition syntheticSnapshot ::
  "real \<Rightarrow> real \<Rightarrow> PNode list \<Rightarrow> nat \<Rightarrow> error + PNodeSnapshot" where
  "syntheticSnapshot now windowSec nodes' i =
    (let oldest = now - windowSec * 1000;
         t = oldest + (real (i + 1) / real steps) * (windowSec * 1000)
     in case collect (map (\<lambda>(idx, n). mutateNode now windowSec i idx n)
                       (zip [0 ..< length nodes'] nodes')) of
          Inl e \<Rightarrow> Inl e
        | Inr mutatedNodes \<Rightarrow>
            Inr \<lparr> timestamp = t, nodes = mutatedNodes, synthetic = Some True \<rparr>)"

definition synthesize :: "real \<Rightarrow> real \<Rightarrow> PNode list \<Rightarrow> error + PNodeSnapshot list" where
  "synthesize now windowSec nodes' =
    collect (map (syntheticSnapshot now windowSec nodes') [0 ..< steps])"

text \<open>
  The body of the \<open>useMemo\<close> that resolves the view to display; \<open>timeIndex\<close> is the
  integer position chosen on the time slider.
\<close>

definition resolveTimeView ::
  "real \<Rightarrow> TimeMode \<Rightarrow> int \<Rightarrow> PNodeSnapshot list \<Rightarrow> PNode list
    \<Rightarrow> (string, HealthDetails) jsmap \<Rightarrow> error + TimeView" where
  "resolveTimeView now timeMode timeIndex snapshots nodes' healthById =
    (if timeMode = Live \<or> length snapshots = 0
     then Inr \<lparr> displayNodes = nodes', displayHealthById = healthById,
                isSyntheticHistory = False, availableSnapshots = [] \<rparr>
     else
       let windowSec = windowSecOf timeMode;
           windowSnapshots0 = filter (\<lambda>s. now - timestamp s \<le> windowSec * 1000) snapshots;
           isSynthetic = (length windowSnapshots0 = 0)
       in case (if isSynthetic then synthesize now windowSec nodes' else Inr windowSnapshots0) of
            Inl e \<Rightarrow> Inl e
          | Inr windowSnapshots \<Rightarrow>
              let clampedIndex =
                    (if length windowSnapshots > 0
                     then min timeIndex (int (length windowSnapshots) - 1) else 0);
                  snap = nullish (jsIndex windowSnapshots clampedIndex) (jsIndex windowSnapshots 0);
                  healthMap =
                    (case snap of None \<Rightarrow> []
                     | Some sn \<Rightarrow>
                         fold (\<lambda>n m. case mapGet healthById (pnodeId n) of
                                        None \<Rightarrow> m | Some h \<Rightarrow> mapSet m (pnodeId n) h)
                           (nodes sn) [])
              in Inr \<lparr> displayNodes = (case snap of None \<Rightarrow> nodes' | Some sn \<Rightarrow> nodes sn),
                       displayHealthById = (if healthMap \<noteq> [] then healthMap else healthById),
                       isSyntheticHistory = isSynthetic,
                       availableSnapshots = windowSnapshots \<rparr>)"

section \<open>Vocabulary of the properties\<close>

text \<open>The reasons pushed by the six rules of the health scorer, before the default reason
  is considered.\<close>

definition ruleReasons :: "real \<Rightarrow> PNode \<Rightarrow> string list" where
  "ruleReasons now node =
    (if nullishOr (nullish (peers_seen node) (peersSeen node)) 0 < 3
     then [''Low peer count in gossip''] else [])
    @ (if diversityScoreOf node < 0.4 then [''Peers lack geographic / ASN diversity''] else [])
    @ (case nullish (response_latency node) (responseLatency node) of None \<Rightarrow> []
       | Some ms \<Rightarrow> if ms > 350 then [''High gossip response latency''] else [])
    @ (if clamp01 (nullishOr (nullish (nullish (uptime node) (uptime_ratio node))
          (uptimeRatio node)) 0.8) < 0.8
       then [''Uptime below target SLA''] else [])
    @ (if clamp01 (nullishOr (nullish (nullish (data_availability node) (dataAvailability node))
          (dataAvailabilityRatio node)) 0.9) < 0.8
       then [''Data availability below network baseline''] else [])
    @ (case lastSeen node of None \<Rightarrow> []
       | Some lastSeenMs \<Rightarrow>
           if (now - lastSeenMs) / 1000 > 10 * 60
           then [''Not seen in recent gossip window''] else [])"

text \<open>The condition of the sudden-drop loop on a node of the previous snapshot.\<close>

definition dropCond :: "(string, PNode) jsmap \<Rightarrow> PNode \<Rightarrow> bool" where
  "dropCond cb p = (status p = Online \<and>
     (case mapGet cb (pnodeId p) of None \<Rightarrow> True | Some n \<Rightarrow> status n = Offline))"

text \<open>The condition of the black-hole loop on a node of the current roster.\<close>

definition blackHoleCond :: "real \<Rightarrow> PNode \<Rightarrow> bool" where
  "blackHoleCond now n =
     (ageGreater (ageMs now n) TEN_MIN
      \<or> nullishOr (nullish (peers_seen n) (peersSeen n)) 0 < 2
      \<or> nullishOr (nullish (nullish (data_availability n) (dataAvailability n))
             (dataAvailabilityRatio n)) 1 < 0.5)"

text \<open>The number of nodes of a roster in the bucket \<open>k\<close>.\<close>

definition bucketTotal :: "PNode list \<Rightarrow> string \<Rightarrow> nat" where
  "bucketTotal ns k = length (filter (\<lambda>n. getRegionKey n = k) ns)"

text \<open>The number of offline nodes of a roster in the bucket \<open>k\<close>.\<close>

definition bucketOffline :: "PNode list \<Rightarrow> string \<Rightarrow> nat" where
  "bucketOffline ns k = length (filter (\<lambda>n. getRegionKey n = k \<and> status n = Offline) ns)"

text \<open>The counts a region map holds for a key, zero when the key is absent.\<close>

definition statsAt :: "(string, RegionTotals) jsmap \<Rightarrow> string \<Rightarrow> RegionTotals" where
  "statsAt m k = nullishOr (mapGet m k) \<lparr> total = 0, offline = 0 \<rparr>"

text \<open>The nodes the sudden-drop loop runs over: none unless both snapshots exist.\<close>

definition prevNodesOf :: "PNodeSnapshot list \<Rightarrow> PNode list" where
  "prevNodesOf snapshots =
    (case jsIndex snapshots (int (length snapshots) - 2) of None \<Rightarrow> []
     | Some p \<Rightarrow> (case jsIndex snapshots (int (length snapshots) - 1) of None \<Rightarrow> []
         | Some l \<Rightarrow> nodes p))"

text \<open>A status and what it may become in one step along online, unknown, offline.\<close>

definition downgradedAtMostOnce :: "PNodeStatus \<Rightarrow> PNodeStatus \<Rightarrow> bool" where
  "downgradedAtMostOnce a b = (b = a \<or> (a = Online \<and> b = Unknown) \<or> (a = Unknown \<and> b = Offline))"

text \<open>What holds of the synthetic snapshot at position \<open>i\<close>: its timestamp, its flag, and
  its nodes, each the node of the roster at the same index with the same id.\<close>

definition syntheticAt :: "real \<Rightarrow> real \<Rightarrow> PNode list \<Rightarrow> nat \<Rightarrow> PNodeSnapshot \<Rightarrow> bool" where
  "syntheticAt now w nodes' i s =
    (timestamp s = now - w * 1000 + (real (i + 1) / 12) * (w * 1000)
     \<and> synthetic s = Some True
     \<and> length (nodes s) = length nodes'
     \<and> (\<forall>j<length nodes'. pnodeId (nodes s ! j) = pnodeId (nodes' ! j)
           \<and> downgradedAtMostOnce (status (nodes' ! j)) (status (nodes s ! j))))"

section \<open>Example inputs\<close>

text \<open>A node with the required fields only: every optional telemetry field is absent.\<close>

definition plainNode :: "string \<Rightarrow> real \<Rightarrow> real \<Rightarrow> PNodeStatus \<Rightarrow> real option \<Rightarrow> PNode" where
  "plainNode i lat lon st seen =
    \<lparr> pnodeId = i, latitude = lat, longitude = lon, status = st, storageUsed = 0,
      version = ''1.0'', lastSeen = seen, peers_seen = None, peersSeen = None,
      peer_diversity = None, peerDiversity = None, response_latency = None,
      responseLatency = None, uptime = None, uptime_ratio = None, uptimeRatio = None,
      data_availability = None, dataAvailability = None, dataAvailabilityRatio = None,
      version_freshness = None \<rparr>"

text \<open>Five nodes of the bucket \<open>10:20\<close>: three offline, one unknown, one online.\<close>

definition rosterOutage :: "PNode list" where
  "rosterOutage =
    [plainNode ''a'' 12 18 Offline (Some 0), plainNode ''b'' 11 19 Offline (Some 0),
     plainNode ''c'' 13 21 Offline (Some 0), plainNode ''d'' 9 22 Unknown (Some 0),
     plainNode ''e'' 14 20 Online (Some 0)]"

text \<open>Five nodes of the bucket \<open>10:20\<close>: two offline, three online.\<close>

definition rosterCalm :: "PNode list" where
  "rosterCalm =
    [plainNode ''a'' 12 18 Offline (Some 0), plainNode ''b'' 11 19 Offline (Some 0),
     plainNode ''c'' 13 21 Online (Some 0), plainNode ''d'' 9 22 Online (Some 0),
     plainNode ''e'' 14 20 Online (Some 0)]"

text \<open>Two consecutive snapshots: node \<open>a\<close> goes offline, node \<open>b\<close> stays online.\<close>

definition snapBefore :: PNodeSnapshot where
  "snapBefore =
    \<lparr> timestamp = 0,
      nodes = [plainNode ''a'' 12 18 Online (Some 0), plainNode ''b'' 40 50 Online (Some 0)],
      synthetic = None \<rparr>"

definition snapAfter :: PNodeSnapshot where
  "snapAfter =
    \<lparr> timestamp = 30000,
      nodes = [plainNode ''a'' 12 18 Offline (Some 0), plainNode ''b'' 40 50 Online (Some 30000)],
      synthetic = None \<rparr>"

section \<open>Properties of the containers\<close>

lemma map_of_mapSet: "map_of (mapSet m k v) = (map_of m)(k \<mapsto> v)"
  by (induction m) (auto simp: fun_eq_iff)

lemma mapGet_mapSet: "mapGet (mapSet m k v) k' = (if k' = k then Some v else mapGet m k')"
  by (simp add: mapGet_def map_of_mapSet)

lemma keys_mapSet: "fst ` set (mapSet m k v) = insert k (fst ` set m)"
  by (simp add: dom_map_of_conv_image_fst[symmetric] map_of_mapSet)

lemma distinct_mapSet: "distinct (map fst m) \<Longrightarrow> distinct (map fst (mapSet m k v))"
proof (induction m)
  case Nil
  then show ?case by simp
next
  case (Cons e m)
  obtain k' v' where e: "e = (k', v')" by (cases e)
  have "k' \<noteq> k \<Longrightarrow> k' \<notin> fst ` set (mapSet m k v)"
    using Cons.prems e by (simp add: keys_mapSet)
  with Cons e show ?case by auto
qed

lemma listOf_mapSet: "listOf (mapSet m k v) k' = (if k' = k then v else listOf m k')"
  by (simp add: listOf_def mapGet_mapSet)

lemma listOf_empty: "listOf [] i = []"
  by (simp add: listOf_def mapGet_def)

lemma suddenDropStep_tags:
  "set (listOf (suddenDropStep cb p m) i) =
     set (listOf m i) \<union> (if pnodeId p = i \<and> dropCond cb p then {sudden_drop} else {})"
  by (auto simp: suddenDropStep_def dropCond_def Let_def listOf_mapSet split: option.splits)

lemma fold_suddenDropStep_tags:
  "set (listOf (fold (suddenDropStep cb) ps m) i) =
     set (listOf m i) \<union> (if \<exists>p\<in>set ps. pnodeId p = i \<and> dropCond cb p then {sudden_drop} else {})"
proof (induction ps arbitrary: m)
  case Nil
  then show ?case by simp
next
  case (Cons p ps)
  show ?case
    by (simp only: fold_simps Cons.IH suddenDropStep_tags) auto
qed

lemma isolatedStep_tags:
  "set (listOf (isolatedStep rs n m) i) =
     set (listOf m i) \<union> (if pnodeId n = i \<and> getRegionKey n \<in> set rs then {isolated} else {})"
  by (auto simp: isolatedStep_def Let_def listOf_mapSet)

lemma fold_isolatedStep_tags:
  "set (listOf (fold (isolatedStep rs) ns m) i) =
     set (listOf m i) \<union> (if \<exists>n\<in>set ns. pnodeId n = i \<and> getRegionKey n \<in> set rs then {isolated} else {})"
proof (induction ns arbitrary: m)
  case Nil
  then show ?case by simp
next
  case (Cons p ps)
  show ?case
    by (simp only: fold_simps Cons.IH isolatedStep_tags) auto
qed

lemma blackHoleStep_tags:
  "set (listOf (blackHoleStep now n m) i) =
     set (listOf m i) \<union> (if pnodeId n = i \<and> blackHoleCond now n then {black_hole} else {})"
  by (auto simp: blackHoleStep_def blackHoleCond_def Let_def listOf_mapSet)

lemma fold_blackHoleStep_tags:
  "set (listOf (fold (blackHoleStep now) ns m) i) =
     set (listOf m i) \<union> (if \<exists>n\<in>set ns. pnodeId n = i \<and> blackHoleCond now n then {black_hole} else {})"
proof (induction ns arbitrary: m)
  case Nil
  then show ?case by simp
next
  case (Cons p ps)
  show ?case
    by (simp only: fold_simps Cons.IH blackHoleStep_tags) auto
qed

lemma statsAt_regionStep:
  "statsAt (regionStep n m) k =
     (if getRegionKey n = k
      then \<lparr> total = total (statsAt m k) + 1,
             offline = offline (statsAt m k) + (if status n = Offline then 1 else 0) \<rparr>
      else statsAt m k)"
  by (simp add: statsAt_def regionStep_def Let_def mapGet_mapSet)

lemma keys_regionStep: "fst ` set (regionStep n m) = insert (getRegionKey n) (fst ` set m)"
  by (simp add: regionStep_def Let_def keys_mapSet)

lemma distinct_regionStep: "distinct (map fst m) \<Longrightarrow> distinct (map fst (regionStep n m))"
  by (simp add: regionStep_def Let_def distinct_mapSet)

lemma fold_regionStep_stats:
  "statsAt (fold regionStep ns m) k =
      \<lparr> total = total (statsAt m k) + bucketTotal ns k,
        offline = offline (statsAt m k) + bucketOffline ns k \<rparr>"
proof (induction ns arbitrary: m)
  case Nil
  then show ?case by (simp add: bucketTotal_def bucketOffline_def)
next
  case (Cons n ns)
  show ?case
    by (simp only: fold_simps Cons.IH[of "regionStep n m"])
       (simp add: statsAt_regionStep bucketTotal_def bucketOffline_def)
qed

lemma fold_regionStep_keys:
  "fst ` set (fold regionStep ns m) = fst ` set m \<union> getRegionKey ` set ns"
  by (induction ns arbitrary: m) (auto simp: keys_regionStep)

lemma fold_regionStep_distinct:
  "distinct (map fst m) \<Longrightarrow> distinct (map fst (fold regionStep ns m))"
  by (induction ns arbitrary: m) (simp_all add: distinct_regionStep)

lemma isolatedRegions_iff:
  "k \<in> set (isolatedRegionsOf ns) \<longleftrightarrow>
     5 \<le> bucketTotal ns k \<and> 0.6 \<le> real (bucketOffline ns k) / real (bucketTotal ns k)"
proof -
  let ?m = "regionTotalsOf ns"
  have st: "statsAt ?m k = \<lparr> total = bucketTotal ns k, offline = bucketOffline ns k \<rparr>"
    and keys: "fst ` set ?m = getRegionKey ` set ns"
    and dist: "distinct (map fst ?m)"
    using fold_regionStep_stats[of ns "[]" k] fold_regionStep_keys[of ns "[]"]
      fold_regionStep_distinct[of "[]" ns]
    by (simp_all add: regionTotalsOf_def statsAt_def mapGet_def)
  have "bucketTotal ns k > 0 \<longleftrightarrow> k \<in> getRegionKey ` set ns"
    by (auto simp: bucketTotal_def filter_empty_conv)
  with keys have inkeys: "bucketTotal ns k > 0 \<longleftrightarrow> k \<in> fst ` set ?m" by simp
  have look: "(k, v) \<in> set ?m \<longleftrightarrow> map_of ?m k = Some v" for v
    using dist by simp
  show ?thesis
  proof
    assume "k \<in> set (isolatedRegionsOf ns)"
    then obtain v where v: "(k, v) \<in> set ?m" "total v \<ge> 5"
        "real (offline v) / real (total v) \<ge> 0.6"
      by (auto simp: isolatedRegionsOf_def)
    from v(1) look have "statsAt ?m k = v" by (simp add: statsAt_def mapGet_def)
    with st v show "5 \<le> bucketTotal ns k \<and> 0.6 \<le> real (bucketOffline ns k) / real (bucketTotal ns k)"
      by auto
  next
    assume a: "5 \<le> bucketTotal ns k \<and> 0.6 \<le> real (bucketOffline ns k) / real (bucketTotal ns k)"
    then have "k \<in> fst ` set ?m" using inkeys by simp
    then obtain v where v: "(k, v) \<in> set ?m" by auto
    with look have "statsAt ?m k = v" by (simp add: statsAt_def mapGet_def)
    with st have "v = \<lparr> total = bucketTotal ns k, offline = bucketOffline ns k \<rparr>" by simp
    with a v show "k \<in> set (isolatedRegionsOf ns)"
      by (force simp: isolatedRegionsOf_def)
  qed
qed

lemma fold_mapSet_lookup:
  "map_of (fold (\<lambda>e m. mapSet m (fst e) (snd e)) es m0) k =
    (case map_of (rev es) k of None \<Rightarrow> map_of m0 k | Some v \<Rightarrow> Some v)"
proof (induction es arbitrary: m0)
  case Nil
  then show ?case by simp
next
  case (Cons e es)
  show ?case
    by (simp add: Cons.IH map_of_mapSet map_add_def split: option.splits)
qed

lemma currentById_None:
  "mapGet (newMap (map (\<lambda>n. (pnodeId n, n)) cur)) i = None
    \<longleftrightarrow> (\<forall>n\<in>set cur. pnodeId n \<noteq> i)"
proof -
  let ?es = "map (\<lambda>n. (pnodeId n, n)) cur"
  have "mapGet (newMap ?es) i = None \<longleftrightarrow> map_of (rev ?es) i = None"
    by (simp add: mapGet_def newMap_def fold_mapSet_lookup split: option.splits)
  also have "\<dots> \<longleftrightarrow> i \<notin> fst ` set (rev ?es)"
    by (rule map_of_eq_None_iff)
  also have "\<dots> \<longleftrightarrow> (\<forall>n\<in>set cur. pnodeId n \<noteq> i)"
    by (auto simp: image_iff)
  finally show ?thesis .
qed

lemma currentById_Some:
  assumes "mapGet (newMap (map (\<lambda>n. (pnodeId n, n)) cur)) i = Some n"
  shows "n \<in> set cur \<and> pnodeId n = i"
proof -
  from assms have "map_of (rev (map (\<lambda>n. (pnodeId n, n)) cur)) i = Some n"
    by (simp add: mapGet_def newMap_def fold_mapSet_lookup split: option.splits)
  then have "(i, n) \<in> set (rev (map (\<lambda>n. (pnodeId n, n)) cur))"
    by (rule map_of_SomeD)
  then show ?thesis by auto
qed

lemma dropCond_when_offline_or_absent:
  assumes "status p = Online"
    and "\<forall>n\<in>set cur. pnodeId n = pnodeId p \<longrightarrow> status n = Offline"
  shows "dropCond (newMap (map (\<lambda>n. (pnodeId n, n)) cur)) p"
proof (cases "mapGet (newMap (map (\<lambda>n. (pnodeId n, n)) cur)) (pnodeId p)")
  case None
  with assms(1) show ?thesis by (simp add: dropCond_def)
next
  case (Some n)
  from currentById_Some [OF Some] assms(2) have "status n = Offline" by blast
  with assms(1) Some show ?thesis by (simp add: dropCond_def)
qed

lemma dropCond_when_online:
  assumes "\<exists>n\<in>set cur. pnodeId n = pnodeId p"
    and "\<forall>n\<in>set cur. pnodeId n = pnodeId p \<longrightarrow> status n = Online"
  shows "\<not> dropCond (newMap (map (\<lambda>n. (pnodeId n, n)) cur)) p"
proof (cases "mapGet (newMap (map (\<lambda>n. (pnodeId n, n)) cur)) (pnodeId p)")
  case None
  with assms(1) show ?thesis by (simp add: currentById_None)
next
  case (Some n)
  from currentById_Some [OF Some] assms(2) have "status n = Online" by blast
  with Some show ?thesis by (simp add: dropCond_def)
qed

lemma prevNodesOf_pair: "prevNodesOf (pre @ [sN, sN1]) = nodes sN"
  by (simp add: prevNodesOf_def jsIndex_def nth_append)

lemma anomaliesOf_tags:
  "set (listOf (anomaliesOf now snapshots cur) i) =
    (if \<exists>p\<in>set (prevNodesOf snapshots). pnodeId p = i
          \<and> dropCond (newMap (map (\<lambda>n. (pnodeId n, n)) cur)) p
     then {sudden_drop} else {})
    \<union> (if \<exists>n\<in>set cur. pnodeId n = i \<and> getRegionKey n \<in> set (isolatedRegionsOf cur)
       then {isolated} else {})
    \<union> (if \<exists>n\<in>set cur. pnodeId n = i \<and> blackHoleCond now n then {black_hole} else {})"
proof -
  let ?cb = "newMap (map (\<lambda>n. (pnodeId n, n)) cur)"
  let ?a1 = "fold (suddenDropStep ?cb) (prevNodesOf snapshots) []"
  let ?a2 = "if isolatedRegionsOf cur \<noteq> []
             then fold (isolatedStep (isolatedRegionsOf cur)) cur ?a1 else ?a1"
  have unfold: "anomaliesOf now snapshots cur = fold (blackHoleStep now) cur ?a2"
    by (simp add: anomaliesOf_def prevNodesOf_def Let_def split: option.splits)
  have a1: "set (listOf ?a1 i) =
      (if \<exists>p\<in>set (prevNodesOf snapshots). pnodeId p = i \<and> dropCond ?cb p
       then {sudden_drop} else {})"
    using listOf_empty by (simp add: fold_suddenDropStep_tags)
  have a2: "set (listOf ?a2 i) = set (listOf ?a1 i)
      \<union> (if \<exists>n\<in>set cur. pnodeId n = i \<and> getRegionKey n \<in> set (isolatedRegionsOf cur)
         then {isolated} else {})"
    by (cases "isolatedRegionsOf cur = []") (simp_all add: fold_isolatedStep_tags)
  show ?thesis
    by (simp only: unfold fold_blackHoleStep_tags a2 a1)
qed

lemma analyzeFailures_anomalies:
  "cur \<noteq> [] \<Longrightarrow> anomaliesById (analyzeFailures now snapshots cur) = anomaliesOf now snapshots cur"
  by (simp add: analyzeFailures_def Let_def)

lemma analyzeFailures_empty:
  "analyzeFailures now snapshots [] =
    \<lparr> anomaliesById = [], partitionSuspected = False, partitionReason = None \<rparr>"
  by (simp add: analyzeFailures_def)

section \<open>Properties of the scorers\<close>

lemma clamp01_range: "0 \<le> clamp01 x \<and> clamp01 x \<le> 1"
  by (simp add: clamp01_def)

lemma clamp01_id: "0 \<le> x \<Longrightarrow> x \<le> 1 \<Longrightarrow> clamp01 x = x"
  by (simp add: clamp01_def)

lemma health_score_range:
  "0 \<le> score (computeNodeHealth now n) \<and> score (computeNodeHealth now n) \<le> 1"
  by (simp add: computeNodeHealth_def Let_def clamp01_range)

lemma reputation_score_range:
  "0 \<le> rep_score (computeReputation n h) \<and> rep_score (computeReputation n h) \<le> 1"
  by (simp add: computeReputation_def Let_def clamp01_range)

lemma health_tier_of_score:
  "tier (computeNodeHealth now n) =
    (if score (computeNodeHealth now n) < 0.4 then Bad
     else if score (computeNodeHealth now n) < 0.7 then Warning else Good)"
  by (simp add: computeNodeHealth_def Let_def)

lemma score_at_lower_boundary:
  "score (computeNodeHealth 0 ((plainNode ''a'' 0 0 Offline None) \<lparr> peer_diversity := Some (1 / 15) \<rparr>))
     = 0.4"
  by (simp add: computeNodeHealth_def Let_def plainNode_def clamp01_id peersScoreOf_def
      latencyScoreOf_def diversityScoreOf_def freshnessScoreOf_def falsyOr_def)

lemma score_at_upper_boundary:
  "score (computeNodeHealth 0 ((plainNode ''b'' 0 0 Online None) \<lparr> peer_diversity := Some 0.9 \<rparr>))
     = 0.7"
  by (simp add: computeNodeHealth_def Let_def plainNode_def clamp01_id peersScoreOf_def
      latencyScoreOf_def diversityScoreOf_def freshnessScoreOf_def falsyOr_def)

text \<open>
  Claim C3: for every node the health score and the reputation score lie in \<open>[0, 1]\<close>,
  and the tier boundaries are exact: a health score of exactly \<open>0.4\<close> gives the tier
  \<open>warning\<close>, not \<open>bad\<close>, and a health score of exactly \<open>0.7\<close> gives \<open>good\<close>, not
  \<open>warning\<close>. The reputation score is bounded for any health result passed in.
\<close>

theorem scores_bounded_tiers_exact:
  "0 \<le> score (computeNodeHealth now n) \<and> score (computeNodeHealth now n) \<le> 1
   \<and> 0 \<le> rep_score (computeReputation n h) \<and> rep_score (computeReputation n h) \<le> 1
   \<and> (score (computeNodeHealth now n) = 0.4 \<longrightarrow> tier (computeNodeHealth now n) = Warning)
   \<and> (score (computeNodeHealth now n) = 0.7 \<longrightarrow> tier (computeNodeHealth now n) = Good)"
proof -
  have "score (computeNodeHealth now n) = 0.4 \<longrightarrow> tier (computeNodeHealth now n) = Warning"
    by (simp add: health_tier_of_score)
  moreover
  have "score (computeNodeHealth now n) = 0.7 \<longrightarrow> tier (computeNodeHealth now n) = Good"
    by (simp add: health_tier_of_score)
  ultimately show ?thesis
    using health_score_range [of now n] reputation_score_range [of n h] by blast
qed

theorem scores_bounded_tiers_exact_witness:
  "tier (computeNodeHealth 0
      ((plainNode ''a'' 0 0 Offline None) \<lparr> peer_diversity := Some (1 / 15) \<rparr>)) = Warning
   \<and> tier (computeNodeHealth 0
      ((plainNode ''b'' 0 0 Online None) \<lparr> peer_diversity := Some 0.9 \<rparr>)) = Good"
  using
    scores_bounded_tiers_exact [of 0
      "(plainNode ''a'' 0 0 Offline None) \<lparr> peer_diversity := Some (1 / 15) \<rparr>"]
    scores_bounded_tiers_exact [of 0
      "(plainNode ''b'' 0 0 Online None) \<lparr> peer_diversity := Some 0.9 \<rparr>"]
    score_at_lower_boundary score_at_upper_boundary
  by blast

lemma reasons_unfold:
  "reasons (computeNodeHealth now n) =
    (if ruleReasons now n = [] \<and> tier (computeNodeHealth now n) = Good
     then [''Healthy gossip connectivity and recent activity''] else ruleReasons now n)"
  by (simp only: computeNodeHealth_def ruleReasons_def Let_def HealthDetails.select_convs)

lemma diversity_reason_iff:
  "''Peers lack geographic / ASN diversity'' \<in> set (reasons (computeNodeHealth now n))
    \<longleftrightarrow> diversityScoreOf n < 0.4"
  by (simp add: reasons_unfold) (simp add: ruleReasons_def split: option.splits)

text \<open>
  Claim C10: a node whose peer diversity is present and equal to \<open>0\<close> gets exactly the
  health result of the same node with the field absent: the diversity sub-score is
  \<open>0.5\<close> in both cases and the reason for low diversity does not fire.
\<close>

theorem zero_diversity_as_absent:
  assumes "nullish (peer_diversity n) (peerDiversity n) = Some 0"
  shows "computeNodeHealth now n
           = computeNodeHealth now (n \<lparr> peer_diversity := None, peerDiversity := None \<rparr>)
         \<and> diversityScoreOf n = 0.5
         \<and> diversityScoreOf (n \<lparr> peer_diversity := None, peerDiversity := None \<rparr>) = 0.5
         \<and> ''Peers lack geographic / ASN diversity'' \<notin> set (reasons (computeNodeHealth now n))"
proof -
  have d1: "diversityScoreOf n = 0.5"
    using assms by (simp add: diversityScoreOf_def falsyOr_def clamp01_id)
  have d2: "diversityScoreOf (n \<lparr> peer_diversity := None, peerDiversity := None \<rparr>) = 0.5"
    by (simp add: diversityScoreOf_def falsyOr_def clamp01_id)
  have same: "computeNodeHealth now n
           = computeNodeHealth now (n \<lparr> peer_diversity := None, peerDiversity := None \<rparr>)"
    using assms
    by (simp add: computeNodeHealth_def Let_def diversityScoreOf_def freshnessScoreOf_def
        falsyOr_def)
  have "''Peers lack geographic / ASN diversity'' \<notin> set (reasons (computeNodeHealth now n))"
    by (simp add: diversity_reason_iff d1)
  with d1 d2 same show ?thesis by blast
qed

theorem zero_diversity_as_absent_witness:
  "computeNodeHealth 0 ((plainNode ''a'' 0 0 Online None) \<lparr> peerDiversity := Some 0 \<rparr>)
     = computeNodeHealth 0 (plainNode ''a'' 0 0 Online None)"
  using zero_diversity_as_absent [of "(plainNode ''a'' 0 0 Online None) \<lparr> peerDiversity := Some 0 \<rparr>" 0]
  by (simp add: plainNode_def)

section \<open>Properties of the snapshot history\<close>

lemma sliceLast_length: "length (sliceLast k xs) \<le> k"
  by (simp add: sliceLast_def)

lemma appendSnapshot_length: "length (appendSnapshot now d prev) \<le> 500"
  by (simp add: appendSnapshot_def Let_def sliceLast_length)

lemma appendSnapshot_full:
  "length prev = 500 \<Longrightarrow>
   appendSnapshot now d prev = tl prev @ [\<lparr> timestamp = now, nodes = d, synthetic = None \<rparr>]"
  by (cases prev) (simp_all add: appendSnapshot_def Let_def sliceLast_def)

lemma appendSnapshot_suffix:
  "appendSnapshot now d prev =
    drop (length prev + 1 - 500) (prev @ [\<lparr> timestamp = now, nodes = d, synthetic = None \<rparr>])"
  by (simp add: appendSnapshot_def Let_def sliceLast_def)

lemma appendSnapshot_last:
  "last (appendSnapshot now d prev) = \<lparr> timestamp = now, nodes = d, synthetic = None \<rparr>"
  by (simp add: appendSnapshot_def Let_def sliceLast_def)

lemma historyAfter_length:
  "length start \<le> 500 \<Longrightarrow> length (historyAfter fetches start) \<le> 500"
  unfolding historyAfter_def
  by (induction fetches arbitrary: start) (simp_all add: appendSnapshot_length)

text \<open>
  Claim C4: the snapshot history never holds more than 500 entries after an append, and
  so after any sequence of fetches from the empty history; appending to a history of
  exactly 500 drops exactly the oldest entry; what is kept is a suffix of the old
  history followed by the new snapshot, so arrival order is kept and the most recent
  snapshot is last.
\<close>

theorem snapshot_history_bounded:
  "length (appendSnapshot now d prev) \<le> 500
   \<and> length (historyAfter fetches []) \<le> 500
   \<and> (length prev = 500 \<longrightarrow>
        appendSnapshot now d prev
          = tl prev @ [\<lparr> timestamp = now, nodes = d, synthetic = None \<rparr>])
   \<and> appendSnapshot now d prev
        = drop (length prev + 1 - 500)
            (prev @ [\<lparr> timestamp = now, nodes = d, synthetic = None \<rparr>])
   \<and> last (appendSnapshot now d prev) = \<lparr> timestamp = now, nodes = d, synthetic = None \<rparr>"
  using appendSnapshot_length [of now d prev] historyAfter_length [of "[]" fetches]
    appendSnapshot_full [of prev now d] appendSnapshot_suffix [of now d prev]
    appendSnapshot_last [of now d prev]
  by simp

theorem snapshot_history_bounded_witness:
  "length (replicate 500 \<lparr> timestamp = 0, nodes = [], synthetic = None \<rparr>) = 500
   \<and> appendSnapshot 30000 [] (replicate 500 \<lparr> timestamp = 0, nodes = [], synthetic = None \<rparr>)
       = tl (replicate 500 \<lparr> timestamp = 0, nodes = [], synthetic = None \<rparr>)
           @ [\<lparr> timestamp = 30000, nodes = [], synthetic = None \<rparr>]"
  using snapshot_history_bounded
    [of 30000 "[]" "replicate 500 \<lparr> timestamp = 0, nodes = [], synthetic = None \<rparr>" "[]"]
  by simp

section \<open>Properties of the failure detector\<close>

lemma digitsOf_small: "n < 10 \<Longrightarrow> digitsOf n = [digitChar n]"
  by (simp add: digitsOf.simps [of n])

lemma digitsOf_large: "10 \<le> n \<Longrightarrow> digitsOf n = digitsOf (n div 10) @ [digitChar (n mod 10)]"
  by (simp add: digitsOf.simps [of n])

lemmas regionKey_eval = getRegionKey_def plainNode_def mathRound_def numberToString_def Let_def
  digitsOf_small digitsOf_large digitChar_def

lemma rosterOutage_keys: "map getRegionKey rosterOutage = [''10:20'', ''10:20'', ''10:20'', ''10:20'', ''10:20'']"
  by (simp add: rosterOutage_def regionKey_eval)

lemma rosterCalm_keys: "map getRegionKey rosterCalm = [''10:20'', ''10:20'', ''10:20'', ''10:20'', ''10:20'']"
  by (simp add: rosterCalm_def regionKey_eval)

lemma bucketTotal_map: "bucketTotal ns k = length (filter (\<lambda>x. x = k) (map getRegionKey ns))"
  by (simp add: bucketTotal_def filter_map comp_def)

lemma rosterOutage_counts:
  "bucketTotal rosterOutage ''10:20'' = 5 \<and> bucketOffline rosterOutage ''10:20'' = 3"
proof -
  have "bucketTotal rosterOutage ''10:20'' = 5"
    by (simp add: bucketTotal_map rosterOutage_keys)
  moreover have "bucketOffline rosterOutage ''10:20'' = 3"
    by (simp add: bucketOffline_def rosterOutage_def) (simp add: regionKey_eval)
  ultimately show ?thesis by simp
qed

lemma rosterCalm_counts:
  "bucketTotal rosterCalm ''10:20'' = 5 \<and> bucketOffline rosterCalm ''10:20'' = 2"
proof -
  have "bucketTotal rosterCalm ''10:20'' = 5"
    by (simp add: bucketTotal_map rosterCalm_keys)
  moreover have "bucketOffline rosterCalm ''10:20'' = 2"
    by (simp add: bucketOffline_def rosterCalm_def) (simp add: regionKey_eval)
  ultimately show ?thesis by simp
qed

lemma isolatedRegions_distinct: "distinct (isolatedRegionsOf ns)"
  using fold_regionStep_distinct [of "[]" ns]
  by (simp add: isolatedRegionsOf_def regionTotalsOf_def distinct_map_filter)

lemma isolated_verdict:
  assumes "isolatedRegionsOf cur \<noteq> []" and "cur \<noteq> []"
  shows "partitionSuspected (analyzeFailures now snapshots cur)
    \<and> partitionReason (analyzeFailures now snapshots cur)
        = Some (''Region outage or isolation in '' @ joinStrings '', '' (isolatedRegionsOf cur))"
  using assms
  by (simp add: analyzeFailures_def Let_def partitionVerdict_def reasonMissing_def)

lemma bucket_nonempty: "0 < bucketTotal cur k \<Longrightarrow> cur \<noteq> []"
  by (auto simp: bucketTotal_def)

text \<open>
  Claim C2: the verdict follows the priority order. For every roster with an isolated
  region (a bucket \<open>k\<close> of at least 5 nodes with an offline ratio of at least 0.6) and
  more offline than online nodes, the verdict is suspected with the isolated-region
  reason, the text followed by the isolated bucket keys joined by a comma and a space,
  and not the majority-offline reason. The keys listed are exactly the isolated
  buckets, each once.
\<close>

theorem isolated_region_reason_wins:
  assumes "5 \<le> bucketTotal cur k"
    and "0.6 \<le> real (bucketOffline cur k) / real (bucketTotal cur k)"
    and "length (filter (\<lambda>n. status n = Offline) cur)
           > length (filter (\<lambda>n. status n = Online) cur)"
  shows "partitionSuspected (analyzeFailures now snapshots cur)
    \<and> partitionReason (analyzeFailures now snapshots cur)
        = Some (''Region outage or isolation in '' @ joinStrings '', '' (isolatedRegionsOf cur))
    \<and> partitionReason (analyzeFailures now snapshots cur)
        \<noteq> Some ''Majority of pNodes appear offline or unreachable''
    \<and> k \<in> set (isolatedRegionsOf cur)
    \<and> distinct (isolatedRegionsOf cur)
    \<and> set (isolatedRegionsOf cur)
        = {r. 5 \<le> bucketTotal cur r
              \<and> 0.6 \<le> real (bucketOffline cur r) / real (bucketTotal cur r)}"
proof -
  from assms(1,2) have k: "k \<in> set (isolatedRegionsOf cur)"
    by (simp add: isolatedRegions_iff)
  then have ne: "isolatedRegionsOf cur \<noteq> []" by auto
  from assms(1) have cur: "cur \<noteq> []" by (intro bucket_nonempty [of cur k]) simp
  note v = isolated_verdict [OF ne cur, of now snapshots]
  have "partitionReason (analyzeFailures now snapshots cur)
        \<noteq> Some ''Majority of pNodes appear offline or unreachable''"
    by (simp add: v)
  moreover have "set (isolatedRegionsOf cur)
        = {r. 5 \<le> bucketTotal cur r
              \<and> 0.6 \<le> real (bucketOffline cur r) / real (bucketTotal cur r)}"
    by (auto simp: isolatedRegions_iff)
  ultimately show ?thesis using v k isolatedRegions_distinct [of cur] by blast
qed

lemma singleton_list:
  assumes "distinct xs" and "set xs = {a}"
  shows "xs = [a]"
proof (cases xs)
  case Nil
  with assms(2) show ?thesis by simp
next
  case (Cons x rest)
  with assms have xa: "x = a" and sub: "set rest \<subseteq> {a}" and notin: "x \<notin> set rest"
    by auto
  have "rest = []"
  proof (rule ccontr)
    assume "rest \<noteq> []"
    then obtain y where "y \<in> set rest" by (cases rest) auto
    with xa sub notin show False by auto
  qed
  with Cons xa show ?thesis by simp
qed

lemma rosterOutage_isolatedRegions: "isolatedRegionsOf rosterOutage = [''10:20'']"
proof -
  have "set (isolatedRegionsOf rosterOutage) \<subseteq> getRegionKey ` set rosterOutage"
    using fold_regionStep_keys [of rosterOutage "[]"]
    by (auto simp: isolatedRegionsOf_def regionTotalsOf_def)
  also have "\<dots> = set (map getRegionKey rosterOutage)" by simp
  also have "\<dots> = {''10:20''}" by (simp only: rosterOutage_keys) simp
  finally have sub: "set (isolatedRegionsOf rosterOutage) \<subseteq> {''10:20''}" .
  have "''10:20'' \<in> set (isolatedRegionsOf rosterOutage)"
    by (simp add: isolatedRegions_iff rosterOutage_counts)
  with sub have "set (isolatedRegionsOf rosterOutage) = {''10:20''}" by blast
  with isolatedRegions_distinct [of rosterOutage] show ?thesis
    by (rule singleton_list)
qed

theorem isolated_region_reason_wins_witness:
  "partitionSuspected (analyzeFailures 0 [] rosterOutage)
   \<and> partitionReason (analyzeFailures 0 [] rosterOutage)
       = Some ''Region outage or isolation in 10:20''"
proof -
  have counts: "length (filter (\<lambda>n. status n = Offline) rosterOutage)
            > length (filter (\<lambda>n. status n = Online) rosterOutage)"
    by (simp add: rosterOutage_def plainNode_def)
  show ?thesis
    using isolated_region_reason_wins [of rosterOutage "''10:20''" 0 "[]"] counts
    by (simp add: rosterOutage_counts rosterOutage_isolatedRegions)
qed

lemma sudden_drop_iff:
  "cur \<noteq> [] \<Longrightarrow>
    sudden_drop \<in> set (listOf (anomaliesById (analyzeFailures now snapshots cur)) i)
    \<longleftrightarrow> (\<exists>p\<in>set (prevNodesOf snapshots). pnodeId p = i
           \<and> dropCond (newMap (map (\<lambda>n. (pnodeId n, n)) cur)) p)"
  by (simp add: analyzeFailures_anomalies anomaliesOf_tags)

lemma isolated_iff:
  "isolated \<in> set (listOf (anomaliesById (analyzeFailures now snapshots cur)) i)
    \<longleftrightarrow> (\<exists>n\<in>set cur. pnodeId n = i \<and> getRegionKey n \<in> set (isolatedRegionsOf cur))"
proof (cases "cur = []")
  case True
  then show ?thesis by (simp add: analyzeFailures_empty listOf_empty)
next
  case False
  then show ?thesis by (simp add: analyzeFailures_anomalies anomaliesOf_tags)
qed

lemma black_hole_iff:
  "black_hole \<in> set (listOf (anomaliesById (analyzeFailures now snapshots cur)) i)
    \<longleftrightarrow> (\<exists>n\<in>set cur. pnodeId n = i \<and> blackHoleCond now n)"
proof (cases "cur = []")
  case True
  then show ?thesis by (simp add: analyzeFailures_empty listOf_empty)
next
  case False
  then show ?thesis by (simp add: analyzeFailures_anomalies anomaliesOf_tags)
qed

text \<open>
  Claim C1, amended: when the current roster is not empty and the snapshots passed end
  with \<open>N\<close> and \<open>N+1\<close>, with the roster of \<open>N+1\<close> as the current roster, a node
  that is online in \<open>N\<close> and offline in or absent from \<open>N+1\<close> carries
  \<open>sudden_drop\<close>; a node that is online in \<open>N+1\<close> never carries it.
  (Offline in \<open>N+1\<close>: every entry of the roster with its id is offline; online: there
  is an entry with its id, and every such entry is online.)
\<close>

theorem sudden_drop_between_snapshots:
  assumes "nodes sN1 \<noteq> []"
  shows "(\<forall>p\<in>set (nodes sN).
            status p = Online
            \<and> (\<forall>n\<in>set (nodes sN1). pnodeId n = pnodeId p \<longrightarrow> status n = Offline)
            \<longrightarrow> sudden_drop \<in> set (listOf (anomaliesById
                   (analyzeFailures now (pre @ [sN, sN1]) (nodes sN1))) (pnodeId p)))
       \<and> (\<forall>i. (\<exists>n\<in>set (nodes sN1). pnodeId n = i)
                \<and> (\<forall>n\<in>set (nodes sN1). pnodeId n = i \<longrightarrow> status n = Online)
            \<longrightarrow> sudden_drop \<notin> set (listOf (anomaliesById
                   (analyzeFailures now (pre @ [sN, sN1]) (nodes sN1))) i))"
proof (intro conjI ballI allI impI)
  fix p
  assume p: "p \<in> set (nodes sN)"
    and h: "status p = Online
            \<and> (\<forall>n\<in>set (nodes sN1). pnodeId n = pnodeId p \<longrightarrow> status n = Offline)"
  from h have "dropCond (newMap (map (\<lambda>n. (pnodeId n, n)) (nodes sN1))) p"
    by (intro dropCond_when_offline_or_absent) simp_all
  with p show "sudden_drop \<in> set (listOf (anomaliesById
                   (analyzeFailures now (pre @ [sN, sN1]) (nodes sN1))) (pnodeId p))"
    using assms by (auto simp: sudden_drop_iff prevNodesOf_pair)
next
  fix i
  assume h: "(\<exists>n\<in>set (nodes sN1). pnodeId n = i)
             \<and> (\<forall>n\<in>set (nodes sN1). pnodeId n = i \<longrightarrow> status n = Online)"
  have "\<not> dropCond (newMap (map (\<lambda>n. (pnodeId n, n)) (nodes sN1))) p" if "pnodeId p = i" for p
    using h that by (intro dropCond_when_online) simp_all
  then show "sudden_drop \<notin> set (listOf (anomaliesById
                   (analyzeFailures now (pre @ [sN, sN1]) (nodes sN1))) i)"
    using assms by (auto simp: sudden_drop_iff)
qed

theorem sudden_drop_between_snapshots_witness:
  "sudden_drop \<in> set (listOf (anomaliesById
       (analyzeFailures 30000 [snapBefore, snapAfter] (nodes snapAfter))) ''a'')
   \<and> sudden_drop \<notin> set (listOf (anomaliesById
       (analyzeFailures 30000 [snapBefore, snapAfter] (nodes snapAfter))) ''b'')"
  using sudden_drop_between_snapshots [of snapAfter snapBefore 30000 "[]"]
  by (simp add: snapBefore_def snapAfter_def plainNode_def)

text \<open>
  The claim as stated fails on an empty current roster: the node is online in \<open>N\<close>
  and absent from \<open>N+1\<close>, and the early return leaves it without any tag.
\<close>

theorem sudden_drop_empty_roster_counterexample:
  "plainNode ''a'' 12 18 Online (Some 0) \<in> set (nodes snapBefore)
   \<and> status (plainNode ''a'' 12 18 Online (Some 0)) = Online
   \<and> sudden_drop \<notin> set (listOf (anomaliesById
        (analyzeFailures 30000
           [snapBefore, \<lparr> timestamp = 30000, nodes = [], synthetic = None \<rparr>] [])) ''a'')"
  by (simp add: analyzeFailures_empty listOf_empty snapBefore_def plainNode_def)

text \<open>
  Claim C5: a bucket of exactly 5 nodes with exactly 3 offline is an isolated region, and
  every node of the bucket carries \<open>isolated\<close>; a bucket of exactly 5 nodes with exactly
  2 offline is not isolated, and a node of the bucket does not carry \<open>isolated\<close>, unless
  its id is also the id of a node outside the bucket.
\<close>

theorem isolation_threshold:
  "(bucketTotal cur k = 5 \<and> bucketOffline cur k = 3 \<longrightarrow>
      k \<in> set (isolatedRegionsOf cur)
      \<and> (\<forall>n\<in>set cur. getRegionKey n = k \<longrightarrow>
            isolated \<in> set (listOf (anomaliesById (analyzeFailures now snapshots cur))
                             (pnodeId n))))
   \<and> (bucketTotal cur k = 5 \<and> bucketOffline cur k = 2 \<longrightarrow>
      k \<notin> set (isolatedRegionsOf cur)
      \<and> (\<forall>n\<in>set cur. getRegionKey n = k
              \<and> (\<forall>m\<in>set cur. pnodeId m = pnodeId n \<longrightarrow> getRegionKey m = k) \<longrightarrow>
            isolated \<notin> set (listOf (anomaliesById (analyzeFailures now snapshots cur))
                             (pnodeId n))))"
proof (intro conjI impI)
  assume h: "bucketTotal cur k = 5 \<and> bucketOffline cur k = 3"
  then show "k \<in> set (isolatedRegionsOf cur)" by (simp add: isolatedRegions_iff)
  then show "\<forall>n\<in>set cur. getRegionKey n = k \<longrightarrow>
            isolated \<in> set (listOf (anomaliesById (analyzeFailures now snapshots cur))
                             (pnodeId n))"
    by (auto simp: isolated_iff)
next
  assume h: "bucketTotal cur k = 5 \<and> bucketOffline cur k = 2"
  then show "k \<notin> set (isolatedRegionsOf cur)" by (simp add: isolatedRegions_iff)
  then show "\<forall>n\<in>set cur. getRegionKey n = k
              \<and> (\<forall>m\<in>set cur. pnodeId m = pnodeId n \<longrightarrow> getRegionKey m = k) \<longrightarrow>
            isolated \<notin> set (listOf (anomaliesById (analyzeFailures now snapshots cur))
                             (pnodeId n))"
    by (auto simp: isolated_iff)
qed

lemma rosterOutage_all_keys: "\<forall>n\<in>set rosterOutage. getRegionKey n = ''10:20''"
  using rosterOutage_keys by (simp add: rosterOutage_def)

lemma rosterCalm_all_keys: "\<forall>n\<in>set rosterCalm. getRegionKey n = ''10:20''"
  using rosterCalm_keys by (simp add: rosterCalm_def)

theorem isolation_threshold_witness:
  "''10:20'' \<in> set (isolatedRegionsOf rosterOutage)
   \<and> isolated \<in> set (listOf (anomaliesById (analyzeFailures 0 [] rosterOutage)) ''a'')
   \<and> ''10:20'' \<notin> set (isolatedRegionsOf rosterCalm)
   \<and> isolated \<notin> set (listOf (anomaliesById (analyzeFailures 0 [] rosterCalm)) ''a'')"
proof -
  have a1: "plainNode ''a'' 12 18 Offline (Some 0) \<in> set rosterOutage"
    by (simp add: rosterOutage_def)
  have a2: "plainNode ''a'' 12 18 Offline (Some 0) \<in> set rosterCalm"
    by (simp add: rosterCalm_def)
  have id: "pnodeId (plainNode ''a'' 12 18 Offline (Some 0)) = ''a''"
    by (simp add: plainNode_def)
  from isolation_threshold [of rosterOutage "''10:20''" 0 "[]"] rosterOutage_counts
  have o: "''10:20'' \<in> set (isolatedRegionsOf rosterOutage)
      \<and> (\<forall>n\<in>set rosterOutage. getRegionKey n = ''10:20'' \<longrightarrow>
            isolated \<in> set (listOf (anomaliesById (analyzeFailures 0 [] rosterOutage))
                             (pnodeId n)))"
    by blast
  from isolation_threshold [of rosterCalm "''10:20''" 0 "[]"] rosterCalm_counts
  have c: "''10:20'' \<notin> set (isolatedRegionsOf rosterCalm)
      \<and> (\<forall>n\<in>set rosterCalm. getRegionKey n = ''10:20''
              \<and> (\<forall>m\<in>set rosterCalm. pnodeId m = pnodeId n \<longrightarrow> getRegionKey m = ''10:20'') \<longrightarrow>
            isolated \<notin> set (listOf (anomaliesById (analyzeFailures 0 [] rosterCalm))
                             (pnodeId n)))"
    by blast
  from o a1 rosterOutage_all_keys id
  have "isolated \<in> set (listOf (anomaliesById (analyzeFailures 0 [] rosterOutage)) ''a'')"
    by fastforce
  moreover from c a2 rosterCalm_all_keys id
  have "isolated \<notin> set (listOf (anomaliesById (analyzeFailures 0 [] rosterCalm)) ''a'')"
    by fastforce
  ultimately show ?thesis using o c by blast
qed

lemma verdict_has_reason:
  "\<not> (fst (partitionVerdict regions drops tot offl onl)
       \<and> reasonMissing (snd (partitionVerdict regions drops tot offl onl)))"
  by (simp add: partitionVerdict_def reasonMissing_def)

text \<open>
  Claim C9: whenever the returned verdict is suspected, its reason is not null; the
  guard of the probable-cause block is false for every verdict the \<open>if\<close> chain can
  produce, so the block never runs.
\<close>

theorem partition_reason_never_missing:
  "(partitionSuspected (analyzeFailures now snapshots cur)
      \<longrightarrow> partitionReason (analyzeFailures now snapshots cur) \<noteq> None)
   \<and> \<not> (fst (partitionVerdict regions drops tot offl onl)
          \<and> reasonMissing (snd (partitionVerdict regions drops tot offl onl)))"
proof -
  have "partitionSuspected (analyzeFailures now snapshots cur)
      \<longrightarrow> partitionReason (analyzeFailures now snapshots cur) \<noteq> None"
    by (simp add: analyzeFailures_def Let_def partitionVerdict_def reasonMissing_def)
  then show ?thesis using verdict_has_reason [of regions drops tot offl onl] by blast
qed

theorem partition_reason_never_missing_witness:
  "partitionSuspected (analyzeFailures 0 [] rosterOutage)
   \<and> partitionReason (analyzeFailures 0 [] rosterOutage) \<noteq> None"
proof -
  have "rosterOutage \<noteq> []" by (simp add: rosterOutage_def)
  then have "partitionSuspected (analyzeFailures 0 [] rosterOutage)"
    using isolated_verdict [of rosterOutage 0 "[]"] rosterOutage_isolatedRegions by simp
  then show ?thesis
    using partition_reason_never_missing [of 0 "[]" rosterOutage] by blast
qed

section \<open>Stale and unparseable last-seen times\<close>

lemma stale_reason_iff:
  "''Not seen in recent gossip window'' \<in> set (reasons (computeNodeHealth now n))
    \<longleftrightarrow> (\<exists>t. lastSeen n = Some t \<and> (now - t) / 1000 > 10 * 60)"
  by (simp add: reasons_unfold) (simp add: ruleReasons_def split: option.splits)

lemma freshness_stale:
  "lastSeen n = Some (now - 20 * 60 * 1000) \<Longrightarrow> freshnessScoreOf now n = 0"
  by (simp add: freshnessScoreOf_def clamp01_def)

lemma diversity_absent:
  "peer_diversity n = None \<Longrightarrow> peerDiversity n = None \<Longrightarrow> diversityScoreOf n = 0.5"
  by (simp add: diversityScoreOf_def falsyOr_def clamp01_id)

text \<open>
  Claim C6, amended: for a node that is offline, last seen 20 minutes ago, with a
  peers-seen count of 0 and every other optional telemetry field absent, the health
  score is \<open>0.44\<close> and the tier is \<open>warning\<close>; the reasons are
  \<open>Low peer count in gossip\<close> and \<open>Not seen in recent gossip window\<close>; and the
  failure detector tags the node \<open>black_hole\<close> when it is in the current roster.
\<close>

theorem stale_offline_node:
  assumes "status n = Offline"
    and "lastSeen n = Some (now - 20 * 60 * 1000)"
    and "nullishOr (nullish (peers_seen n) (peersSeen n)) 0 = 0"
    and "peer_diversity n = None \<and> peerDiversity n = None
         \<and> response_latency n = None \<and> responseLatency n = None
         \<and> uptime n = None \<and> uptime_ratio n = None \<and> uptimeRatio n = None
         \<and> data_availability n = None \<and> dataAvailability n = None
         \<and> dataAvailabilityRatio n = None \<and> version_freshness n = None"
    and "n \<in> set cur"
  shows "score (computeNodeHealth now n) = 0.44
    \<and> tier (computeNodeHealth now n) = Warning
    \<and> reasons (computeNodeHealth now n)
        = [''Low peer count in gossip'', ''Not seen in recent gossip window'']
    \<and> black_hole \<in> set (listOf (anomaliesById (analyzeFailures now snapshots cur)) (pnodeId n))"
proof -
  have f: "freshnessScoreOf now n = 0"
    using assms(2) by (rule freshness_stale)
  have d: "diversityScoreOf n = 0.5"
    using assms(4) by (simp add: diversity_absent)
  have sc: "score (computeNodeHealth now n) = 0.44"
    using assms(1,3,4)
    by (simp add: computeNodeHealth_def Let_def f d clamp01_id peersScoreOf_def
        latencyScoreOf_def)
  then have ti: "tier (computeNodeHealth now n) = Warning"
    by (simp add: health_tier_of_score)
  have rr: "ruleReasons now n
      = [''Low peer count in gossip'', ''Not seen in recent gossip window'']"
    using assms(1-4)
    by (simp add: ruleReasons_def d clamp01_id)
  have re: "reasons (computeNodeHealth now n)
      = [''Low peer count in gossip'', ''Not seen in recent gossip window'']"
    by (simp add: reasons_unfold rr)
  have "blackHoleCond now n"
    using assms(2,3) by (simp add: blackHoleCond_def ageMs_def TEN_MIN_def)
  with assms(5)
  have "black_hole \<in> set (listOf (anomaliesById (analyzeFailures now snapshots cur)) (pnodeId n))"
    by (auto simp: black_hole_iff)
  with sc ti re show ?thesis by blast
qed

theorem stale_offline_node_witness:
  "tier (computeNodeHealth 1200000 (plainNode ''a'' 12 18 Offline (Some 0))) = Warning
   \<and> black_hole \<in> set (listOf (anomaliesById
        (analyzeFailures 1200000 [] [plainNode ''a'' 12 18 Offline (Some 0)])) ''a'')"
  using stale_offline_node [of "plainNode ''a'' 12 18 Offline (Some 0)" 1200000
      "[plainNode ''a'' 12 18 Offline (Some 0)]" "[]"]
  by (simp add: plainNode_def)

text \<open>The claim as stated fails: the tier of such a node is \<open>warning\<close>, not \<open>bad\<close>.\<close>

theorem stale_offline_node_counterexample:
  "tier (computeNodeHealth 1200000
      ((plainNode ''a'' 12 18 Offline (Some 0)) \<lparr> peers_seen := Some 0 \<rparr>)) = Warning
   \<and> tier (computeNodeHealth 1200000
      ((plainNode ''a'' 12 18 Offline (Some 0)) \<lparr> peers_seen := Some 0 \<rparr>)) \<noteq> Bad"
proof -
  let ?n = "(plainNode ''a'' 12 18 Offline (Some 0)) \<lparr> peers_seen := Some 0 \<rparr>"
  have f: "freshnessScoreOf 1200000 ?n = 0"
    by (intro freshness_stale) (simp add: plainNode_def)
  have d: "diversityScoreOf ?n = 0.5"
    by (intro diversity_absent) (simp_all add: plainNode_def)
  have "score (computeNodeHealth 1200000 ?n) = 0.44"
    by (simp add: computeNodeHealth_def Let_def f d)
       (simp add: plainNode_def clamp01_id peersScoreOf_def latencyScoreOf_def)
  then show ?thesis by (simp add: health_tier_of_score)
qed

text \<open>
  Claim C8, amended: an unparseable last-seen time is never an error. The failure
  detector treats the age as infinite, so the node meets the last-seen-age condition
  and is tagged \<open>black_hole\<close>. The health scorer does not: it keeps the neutral
  freshness \<open>0.5\<close> and does not push the staleness reason.
\<close>

theorem unparseable_last_seen:
  assumes "lastSeen n = None"
  shows "ageMs now n = Infinity
    \<and> ageGreater (ageMs now n) TEN_MIN
    \<and> (n \<in> set cur \<longrightarrow>
         black_hole \<in> set (listOf (anomaliesById (analyzeFailures now snapshots cur))
                            (pnodeId n)))
    \<and> freshnessScoreOf now n = 0.5
    \<and> ''Not seen in recent gossip window'' \<notin> set (reasons (computeNodeHealth now n))"
proof -
  have age: "ageMs now n = Infinity" using assms by (simp add: ageMs_def)
  then have "blackHoleCond now n" by (simp add: blackHoleCond_def)
  then have "n \<in> set cur \<longrightarrow>
         black_hole \<in> set (listOf (anomaliesById (analyzeFailures now snapshots cur))
                            (pnodeId n))"
    by (auto simp: black_hole_iff)
  moreover have "freshnessScoreOf now n = 0.5"
    using assms by (simp add: freshnessScoreOf_def)
  moreover have "''Not seen in recent gossip window'' \<notin> set (reasons (computeNodeHealth now n))"
    using assms by (simp add: stale_reason_iff)
  ultimately show ?thesis using age by simp
qed

theorem unparseable_last_seen_witness:
  "black_hole \<in> set (listOf (anomaliesById
        (analyzeFailures 0 [] [plainNode ''a'' 12 18 Online None])) ''a'')
   \<and> freshnessScoreOf 0 (plainNode ''a'' 12 18 Online None) = 0.5"
  using unparseable_last_seen [of "plainNode ''a'' 12 18 Online None" 0
      "[plainNode ''a'' 12 18 Online None]" "[]"]
  by (simp add: plainNode_def)

text \<open>
  The claim as stated fails in the health scorer: the freshness of a node with an
  unparseable last-seen time is not the minimum \<open>0\<close>, which a node seen 20 minutes
  ago gets, and the staleness reason is not among its reasons.
\<close>

theorem unparseable_last_seen_counterexample:
  "freshnessScoreOf 1200000 (plainNode ''a'' 12 18 Online None) = 0.5
   \<and> freshnessScoreOf 1200000 (plainNode ''a'' 12 18 Online (Some 0)) = 0
   \<and> ''Not seen in recent gossip window''
        \<notin> set (reasons (computeNodeHealth 1200000 (plainNode ''a'' 12 18 Online None)))"
  by (simp add: stale_reason_iff) (simp add: freshnessScoreOf_def plainNode_def clamp01_def)

section \<open>Properties of time travel\<close>

lemma collect_Inr_D: "collect rs = Inr ys \<Longrightarrow> rs = map Inr ys"
proof (induction rs arbitrary: ys)
  case Nil
  then show ?case by simp
next
  case (Cons r rs)
  then show ?case by (cases r) (auto split: sum.splits)
qed

lemma collect_map_Inr: "collect (map Inr ys) = Inr ys"
  by (induction ys) simp_all

lemma collect_all_Inr:
  assumes "\<forall>x\<in>set xs. \<exists>y. f x = Inr y"
  shows "\<exists>ys. collect (map f xs) = Inr ys"
  using assms
proof (induction xs)
  case Nil
  then show ?case by simp
next
  case (Cons x xs)
  then obtain y ys where "f x = Inr y" "collect (map f xs) = Inr ys" by auto
  then show ?case by simp
qed

lemma collect_nth:
  assumes "collect (map f xs) = Inr ys"
  shows "length ys = length xs \<and> (\<forall>i<length xs. f (xs ! i) = Inr (ys ! i))"
proof -
  from collect_Inr_D [OF assms] have eq: "map f xs = map Inr ys" .
  then have len: "length ys = length xs" by (metis length_map)
  have "f (xs ! i) = Inr (ys ! i)" if "i < length xs" for i
  proof -
    from that have "f (xs ! i) = map f xs ! i" by simp
    also have "\<dots> = map Inr ys ! i" by (simp only: eq)
    also from that len have "\<dots> = Inr (ys ! i)" by simp
    finally show ?thesis .
  qed
  with len show ?thesis by simp
qed

lemma jitter_range: "0 \<le> jitterOf idx i \<and> jitterOf idx i < 1"
  by (simp add: jitterOf_def)

lemma windowSec_cases: "windowSecOf m = 3600 \<or> windowSecOf m = 86400 \<or> windowSecOf m = 604800"
  by (simp add: windowSecOf_def)

lemma windowSec_bounds: "0 < windowSecOf m \<and> windowSecOf m \<le> 604800"
  using windowSec_cases [of m] by auto

lemma offset_bound:
  assumes "0 < w" "w \<le> 604800"
  shows "\<bar>(jitterOf idx i - 0.5) * w * 0.4 * 1000\<bar> \<le> 130000000"
proof -
  have j: "\<bar>jitterOf idx i - 0.5\<bar> \<le> 0.5" using jitter_range [of idx i] by linarith
  have "\<bar>(jitterOf idx i - 0.5) * w * 0.4 * 1000\<bar> = \<bar>jitterOf idx i - 0.5\<bar> * (w * 400)"
    using assms by (simp add: abs_mult)
  also have "\<dots> \<le> 0.5 * (w * 400)"
    using j assms by (intro mult_right_mono) simp_all
  also have "\<dots> \<le> 130000000" using assms by simp
  finally show ?thesis .
qed

lemma timeClip_Some: "\<bar>t\<bar> \<le> 8640000000000000 \<Longrightarrow> \<exists>u. timeClip t = Some u"
  by (simp add: timeClip_def)

lemma mutateNode_Inr:
  assumes "0 < w" "w \<le> 604800" "\<bar>now\<bar> \<le> 8600000000000000"
    and "\<forall>t. lastSeen n = Some t \<longrightarrow> \<bar>t\<bar> \<le> 8600000000000000"
  shows "\<exists>m. mutateNode now w i idx n = Inr m"
proof -
  define base where "base = (case lastSeen n of None \<Rightarrow> now | Some t \<Rightarrow> if t = 0 then now else t)"
  have b: "\<bar>base\<bar> \<le> 8600000000000000"
    using assms(3,4) by (simp add: base_def split: option.splits)
  have "\<bar>base - (jitterOf idx i - 0.5) * w * 0.4 * 1000\<bar> \<le> 8640000000000000"
    using b offset_bound [OF assms(1,2), of idx i] by (simp add: abs_le_iff)
  then obtain u where "timeClip (base - (jitterOf idx i - 0.5) * w * 0.4 * 1000) = Some u"
    using timeClip_Some by blast
  then show ?thesis
    by (simp add: mutateNode_def Let_def base_def)
qed

lemma mutateNode_status:
  assumes "mutateNode now w i idx n = Inr m"
  shows "pnodeId m = pnodeId n \<and> downgradedAtMostOnce (status n) (status m)"
  using assms
  by (auto simp: mutateNode_def Let_def downgradedAtMostOnce_def split: option.splits if_splits)

lemma syntheticSnapshot_Inr:
  assumes "0 < w" "w \<le> 604800" "\<bar>now\<bar> \<le> 8600000000000000"
    and "\<forall>n\<in>set nodes'. \<forall>t. lastSeen n = Some t \<longrightarrow> \<bar>t\<bar> \<le> 8600000000000000"
  shows "\<exists>ms. syntheticSnapshot now w nodes' i
            = Inr \<lparr> timestamp = now - w * 1000 + (real (i + 1) / real steps) * (w * 1000),
                    nodes = ms, synthetic = Some True \<rparr>
          \<and> length ms = length nodes'
          \<and> (\<forall>j<length nodes'. pnodeId (ms ! j) = pnodeId (nodes' ! j)
                \<and> downgradedAtMostOnce (status (nodes' ! j)) (status (ms ! j)))"
proof -
  let ?f = "\<lambda>(idx, n). mutateNode now w i idx n"
  let ?xs = "zip [0 ..< length nodes'] nodes'"
  have "\<forall>x\<in>set ?xs. \<exists>y. ?f x = Inr y"
  proof
    fix x assume "x \<in> set ?xs"
    then have "snd x \<in> set nodes'" by (metis prod.collapse set_zip_rightD)
    with assms(4) have "\<forall>t. lastSeen (snd x) = Some t \<longrightarrow> \<bar>t\<bar> \<le> 8600000000000000" by blast
    from mutateNode_Inr [OF assms(1-3) this, of i "fst x"]
    show "\<exists>y. ?f x = Inr y" by (cases x) simp
  qed
  then obtain ms where ms: "collect (map ?f ?xs) = Inr ms"
    using collect_all_Inr [of ?xs ?f] by blast
  from collect_nth [OF ms]
  have len: "length ms = length nodes'"
    and nth: "\<forall>j<length ?xs. ?f (?xs ! j) = Inr (ms ! j)" by simp_all
  have "pnodeId (ms ! j) = pnodeId (nodes' ! j)
        \<and> downgradedAtMostOnce (status (nodes' ! j)) (status (ms ! j))"
    if "j < length nodes'" for j
  proof -
    from that nth have "mutateNode now w i j (nodes' ! j) = Inr (ms ! j)" by simp
    then show ?thesis by (rule mutateNode_status)
  qed
  with ms len show ?thesis
    by (simp add: syntheticSnapshot_def Let_def)
qed

lemma synthesize_Inr:
  assumes "0 < w" "w \<le> 604800" "\<bar>now\<bar> \<le> 8600000000000000"
    and "\<forall>n\<in>set nodes'. \<forall>t. lastSeen n = Some t \<longrightarrow> \<bar>t\<bar> \<le> 8600000000000000"
  shows "\<exists>ss. synthesize now w nodes' = Inr ss \<and> length ss = 12
          \<and> (\<forall>i<12. syntheticAt now w nodes' i (ss ! i))"
proof -
  let ?f = "syntheticSnapshot now w nodes'"
  have "\<forall>i\<in>set [0 ..< steps]. \<exists>y. ?f i = Inr y"
    using syntheticSnapshot_Inr [OF assms] by blast
  then obtain ss where ss: "collect (map ?f [0 ..< steps]) = Inr ss"
    using collect_all_Inr [of "[0 ..< steps]" ?f] by blast
  from collect_nth [OF ss]
  have len: "length ss = 12" and nth: "\<forall>i<12. ?f i = Inr (ss ! i)"
    by (simp_all add: steps_def)
  have "syntheticAt now w nodes' i (ss ! i)" if "i < 12" for i
  proof -
    from syntheticSnapshot_Inr [OF assms, of i] nth that
    show ?thesis by (auto simp: syntheticAt_def steps_def)
  qed
  with ss len show ?thesis by (simp add: synthesize_def)
qed

lemma resolveTimeView_synthetic:
  assumes "timeMode \<noteq> Live" and "snapshots \<noteq> []"
    and "\<forall>s\<in>set snapshots. \<not> (now - timestamp s \<le> windowSecOf timeMode * 1000)"
    and "synthesize now (windowSecOf timeMode) nodes' = Inr ss"
  shows "\<exists>v. resolveTimeView now timeMode timeIndex snapshots nodes' healthById = Inr v
          \<and> isSyntheticHistory v \<and> availableSnapshots v = ss"
proof -
  have "filter (\<lambda>s. now - timestamp s \<le> windowSecOf timeMode * 1000) snapshots = []"
    using assms(3) by (simp add: filter_empty_conv)
  then show ?thesis
    using assms(1,2,4) by (simp add: resolveTimeView_def Let_def)
qed

lemma synthetic_timestamps_increasing:
  assumes "0 < w" "length ss = 12" "\<forall>i<12. syntheticAt now w nodes' i (ss ! i)"
  shows "sorted_wrt (<) (map timestamp ss)"
proof -
  have "timestamp (ss ! i) < timestamp (ss ! j)" if "i < j" "j < 12" for i j
  proof -
    from that assms(3) have
      ti: "timestamp (ss ! i) = now - w * 1000 + (real (i + 1) / 12) * (w * 1000)" and
      tj: "timestamp (ss ! j) = now - w * 1000 + (real (j + 1) / 12) * (w * 1000)"
      by (simp_all add: syntheticAt_def)
    from that(1) have "real (i + 1) / 12 < real (j + 1) / 12" by simp
    with assms(1) have "(real (i + 1) / 12) * (w * 1000) < (real (j + 1) / 12) * (w * 1000)"
      by (intro mult_strict_right_mono) simp_all
    with ti tj show ?thesis by simp
  qed
  with assms(2) show ?thesis
    by (simp add: sorted_wrt_iff_nth_less)
qed

lemma synthetic_timestamps_span:
  assumes "0 < w" "i < 12" "syntheticAt now w nodes' i s"
  shows "now - w * 1000 < timestamp s \<and> timestamp s \<le> now"
proof -
  from assms(3) have t: "timestamp s = now - w * 1000 + (real (i + 1) / 12) * (w * 1000)"
    by (simp add: syntheticAt_def)
  define d where "d = (real (i + 1) / 12) * (w * 1000)"
  have "0 < d" using assms(1) by (simp add: d_def)
  moreover have "d \<le> 1 * (w * 1000)"
    unfolding d_def using assms(1,2) by (intro mult_right_mono) simp_all
  moreover have "timestamp s = now - w * 1000 + d" using t by (simp add: d_def)
  ultimately show ?thesis by linarith
qed

text \<open>
  Claim C7, amended: when a window (1h, 24h or 7d) is requested, the history is not
  empty, no stored snapshot falls within the window, and the current time and every
  node's last-seen time are dates within 8.6e15 milliseconds of the epoch, the resolver
  returns exactly 12 snapshots, each flagged synthetic, with strictly increasing
  timestamps evenly spaced over the window, after its start and up to the current time,
  which the last one has. The snapshots are those of \<open>synthesize\<close>, a function of the
  current time, the window and the roster alone; each node of a snapshot has the id of
  the node of the roster at its index and a status downgraded by one step at most.
\<close>

theorem synthetic_history:
  assumes "timeMode \<noteq> Live" and "snapshots \<noteq> []"
    and "\<forall>s\<in>set snapshots. \<not> (now - timestamp s \<le> windowSecOf timeMode * 1000)"
    and "\<bar>now\<bar> \<le> 8600000000000000"
    and "\<forall>n\<in>set nodes'. \<forall>t. lastSeen n = Some t \<longrightarrow> \<bar>t\<bar> \<le> 8600000000000000"
  shows "\<exists>v. resolveTimeView now timeMode timeIndex snapshots nodes' healthById = Inr v
    \<and> isSyntheticHistory v
    \<and> length (availableSnapshots v) = 12
    \<and> (\<forall>i<12. syntheticAt now (windowSecOf timeMode) nodes' i (availableSnapshots v ! i))
    \<and> (\<forall>s\<in>set (availableSnapshots v). synthetic s = Some True)
    \<and> sorted_wrt (<) (map timestamp (availableSnapshots v))
    \<and> (\<forall>s\<in>set (availableSnapshots v).
          now - windowSecOf timeMode * 1000 < timestamp s \<and> timestamp s \<le> now)
    \<and> timestamp (last (availableSnapshots v)) = now
    \<and> synthesize now (windowSecOf timeMode) nodes' = Inr (availableSnapshots v)"
proof -
  let ?w = "windowSecOf timeMode"
  have w: "0 < ?w" "?w \<le> 604800" using windowSec_bounds [of timeMode] by simp_all
  from synthesize_Inr [OF w assms(4,5)] obtain ss where
    ss: "synthesize now ?w nodes' = Inr ss" and len: "length ss = 12"
    and at: "\<forall>i<12. syntheticAt now ?w nodes' i (ss ! i)" by blast
  from resolveTimeView_synthetic [OF assms(1-3) ss, of timeIndex healthById] obtain v where
    v: "resolveTimeView now timeMode timeIndex snapshots nodes' healthById = Inr v"
    and syn: "isSyntheticHistory v" and av: "availableSnapshots v = ss" by blast
  have each: "\<exists>i<12. s = ss ! i" if "s \<in> set ss" for s
    using that len by (auto simp: in_set_conv_nth)
  have flag: "\<forall>s\<in>set ss. synthetic s = Some True"
    using each at by (auto simp: syntheticAt_def)
  have incr: "sorted_wrt (<) (map timestamp ss)"
    using w(1) len at by (rule synthetic_timestamps_increasing)
  have span: "\<forall>s\<in>set ss. now - ?w * 1000 < timestamp s \<and> timestamp s \<le> now"
  proof
    fix s assume "s \<in> set ss"
    with each obtain i where "i < 12" "s = ss ! i" by blast
    with at synthetic_timestamps_span [OF w(1), of i now nodes' s]
    show "now - ?w * 1000 < timestamp s \<and> timestamp s \<le> now" by blast
  qed
  have "last ss = ss ! 11" using len by (cases ss rule: rev_cases) (simp_all add: nth_append)
  moreover have "syntheticAt now ?w nodes' 11 (ss ! 11)" using at by simp
  ultimately have lst: "timestamp (last ss) = now" by (simp add: syntheticAt_def)
  from v syn av ss len at flag incr span lst show ?thesis by simp
qed

lemma collect_first_error: "f 0 = Inl e \<Longrightarrow> collect (map f [0 ..< steps]) = Inl e"
  by (simp add: steps_def upt_conv_Cons)

theorem synthetic_history_witness:
  "\<exists>v. resolveTimeView 10000000 Mode1h 0 [\<lparr> timestamp = 0, nodes = [], synthetic = None \<rparr>]
          [plainNode ''a'' 12 18 Online (Some 9000000)] [] = Inr v
        \<and> isSyntheticHistory v \<and> length (availableSnapshots v) = 12"
proof -
  have "\<exists>v. resolveTimeView 10000000 Mode1h 0 [\<lparr> timestamp = 0, nodes = [], synthetic = None \<rparr>]
          [plainNode ''a'' 12 18 Online (Some 9000000)] [] = Inr v
        \<and> isSyntheticHistory v \<and> length (availableSnapshots v) = 12
        \<and> (\<forall>i<12. syntheticAt 10000000 (windowSecOf Mode1h)
              [plainNode ''a'' 12 18 Online (Some 9000000)] i (availableSnapshots v ! i))
        \<and> (\<forall>s\<in>set (availableSnapshots v). synthetic s = Some True)
        \<and> sorted_wrt (<) (map timestamp (availableSnapshots v))
        \<and> (\<forall>s\<in>set (availableSnapshots v).
              10000000 - windowSecOf Mode1h * 1000 < timestamp s \<and> timestamp s \<le> 10000000)
        \<and> timestamp (last (availableSnapshots v)) = 10000000
        \<and> synthesize 10000000 (windowSecOf Mode1h) [plainNode ''a'' 12 18 Online (Some 9000000)]
            = Inr (availableSnapshots v)"
    by (rule synthetic_history) (simp_all add: windowSecOf_def plainNode_def)
  then show ?thesis by blast
qed

text \<open>
  The claim as stated fails on an empty history, where no snapshot falls within the
  window and the live view is returned with no synthetic snapshot, and on a node whose
  last-seen time is the last valid date, where \<open>toISOString\<close> throws.
\<close>

theorem synthetic_history_counterexample:
  "resolveTimeView 10000000 Mode1h 0 [] [plainNode ''a'' 12 18 Online (Some 9000000)] []
     = Inr \<lparr> displayNodes = [plainNode ''a'' 12 18 Online (Some 9000000)],
             displayHealthById = [], isSyntheticHistory = False, availableSnapshots = [] \<rparr>
   \<and> resolveTimeView 10000000 Mode1h 0 [\<lparr> timestamp = 0, nodes = [], synthetic = None \<rparr>]
        [plainNode ''a'' 12 18 Online (Some 8640000000000000)] []
     = Inl RangeError"
proof -
  have "mutateNode 10000000 3600 0 0 (plainNode ''a'' 12 18 Online (Some 8640000000000000))
          = Inl RangeError"
    by (simp add: mutateNode_def Let_def jitterOf_def timeClip_def plainNode_def)
  then have "syntheticSnapshot 10000000 3600
      [plainNode ''a'' 12 18 Online (Some 8640000000000000)] 0 = Inl RangeError"
    by (simp add: syntheticSnapshot_def Let_def)
  then have "synthesize 10000000 3600 [plainNode ''a'' 12 18 Online (Some 8640000000000000)]
      = Inl RangeError"
    unfolding synthesize_def by (rule collect_first_error)
  then show ?thesis
    by (simp add: resolveTimeView_def Let_def windowSecOf_def)
qed

end
